theory Spec2Isabelle
  imports Main
begin

section \<open>The completion session controller of src/completion/index.ts\<close>

text \<open>
  The class \<open>Completion\<close> is embedded as functions on a record \<open>world\<close>: the fields of the
  class, the objects it holds references to (documents, aggregators, cancellation tokens,
  each in a store indexed by a reference), the workspace fields it reads, the clock, and the
  trace \<open>out\<close> of the calls one invocation makes to its collaborators and to the host.

  An \<open>async\<close> method is a function that takes, for every \<open>await\<close> of a collaborator, the
  step of the environment during that suspension (any function on the world: other handlers
  may run there) and the value the awaited call answers with, or the error it rejects with.
  Awaiting a method of the class itself is a call of that method: the suspensions are those
  of the collaborator calls inside it. A method that can throw returns \<open>Inl\<close> of the error
  beside the world it leaves; reading a member of \<open>undefined\<close> or \<open>null\<close> is the error
  \<open>TypeError\<close>.

  Strings are lists of characters; a character is one UTF-16 code unit (the code points
  below 256), so \<open>length\<close> and \<open>slice\<close> count as JavaScript does. In UTF-8, in which the
  host counts columns, a character below 128 is one byte and a character from 128 on is two
  (\<open>utf8_width\<close>). Numbers are \<open>int\<close>; a value that may be \<open>null\<close> or \<open>undefined\<close> is an
  \<open>option\<close>.
  Collaborators whose code is in other files (the provider registry, \<open>util/string\<close>, the
  filter of the aggregator) are the fields of the record \<open>collab\<close>, left arbitrary.
  \<open>init\<close>, \<open>getCompleteConfig\<close> and \<open>dispose\<close> register handlers and read the
  configuration; they are not embedded, the configuration is a field of the world.
\<close>

subsection \<open>JavaScript string primitives\<close>

definition js_index :: "int \<Rightarrow> nat \<Rightarrow> nat" where
  \<comment> \<open>the relative index of \<open>String.prototype.slice\<close>: negative counts from the end, clamped\<close>
  "js_index i n = (if i < 0 then nat (max (int n + i) 0) else min (nat i) n)"

definition js_slice :: "string \<Rightarrow> int \<Rightarrow> int \<Rightarrow> string" where
  "js_slice s a b =
     (let lo = js_index a (length s); hi = js_index b (length s)
      in take (hi - lo) (drop lo s))"

definition js_slice_from :: "string \<Rightarrow> int \<Rightarrow> string" where
  "js_slice_from s a = drop (js_index a (length s)) s"

definition js_endsWith :: "string \<Rightarrow> string \<Rightarrow> bool" where
  "js_endsWith s t = (length t \<le> length s \<and> drop (length s - length t) s = t)"

definition js_whitespace :: "char \<Rightarrow> bool" where
  \<comment> \<open>the code units below 256 that \<open>\\s\<close> and \<open>trim\<close> treat as white space\<close>
  "js_whitespace c = (of_char c \<in> {9, 10, 11, 12, 13, 32, 160 :: nat})"

definition js_trim :: "string \<Rightarrow> string" where
  "js_trim s = rev (dropWhile js_whitespace (rev (dropWhile js_whitespace s)))"

subsection \<open>Byte offsets\<close>

text \<open>
  The host counts columns in bytes of the UTF-8 text. The functions below cut a string at a
  byte offset. They are not code of the class: they say what the text before and from a byte
  column of a line is, where a property speaks of the prefix and the suffix of the line at
  the columns of the trigger context.
\<close>

definition utf8_width :: "char \<Rightarrow> nat" where
  \<comment> \<open>the number of bytes of one character in UTF-8\<close>
  "utf8_width c = (if (of_char c :: nat) < 128 then 1 else 2)"

definition utf8_length :: "string \<Rightarrow> nat" where
  "utf8_length s = sum_list (map utf8_width s)"

fun byte_take :: "nat \<Rightarrow> string \<Rightarrow> string" where
  \<comment> \<open>the text before the byte offset \<open>n\<close>: the characters that end at or before it\<close>
  "byte_take n [] = []"
| "byte_take n (c # cs) = (if utf8_width c \<le> n then c # byte_take (n - utf8_width c) cs else [])"

fun byte_drop :: "nat \<Rightarrow> string \<Rightarrow> string" where
  \<comment> \<open>the text from the byte offset \<open>n\<close> on\<close>
  "byte_drop n [] = []"
| "byte_drop n (c # cs) = (if utf8_width c \<le> n then byte_drop (n - utf8_width c) cs else c # cs)"

subsection \<open>Data\<close>

datatype error = Error (message: string) (stack: string)

definition TypeError :: error where
  "TypeError = Error ''Cannot read property of undefined'' ''TypeError''"

record VimCompleteItem =
  word :: "string option"
  abbr :: "string option"
  user_data :: "string option"
  info :: "string option"
  documentation :: "(string \<times> string) option"
  hasDetail :: bool

record CompleteOption =
  opt_bufnr :: int
  linenr :: int
  col :: int
  colnr :: int
  line :: string
  opt_input :: string
  opt_filetype :: string
  triggerCharacter :: "string option"
  source :: "string option"

record LastInsert =
  character :: string
  timestamp :: int

record CompleteConfig =
  autoTrigger :: string
  keepCompleteopt :: bool
  acceptSuggestionOnCommitCharacter :: bool
  previewIsKeyword :: string
  enablePreview :: bool
  maxPreviewWidth :: int
  triggerAfterInsertEnter :: bool
  noselect :: bool
  numberSelect :: bool
  maxItemCount :: int
  timeout :: int
  minTriggerInputLength :: int
  snippetIndicator :: string
  fixInsertedWord :: bool
  localityBonus :: bool

text \<open>
  \<open>Document\<close> (model/document) is not in this file; the controller reads and writes these
  members of it. \<open>isWord\<close> and \<open>getline\<close> are arbitrary functions.
\<close>

record Document =
  bufnr :: int
  filetype :: string
  changedtick :: int
  paused :: bool
  isWord :: "string \<Rightarrow> bool"
  getline :: "int \<Rightarrow> string"

text \<open>
  Modelled from the spec: the session aggregator \<open>Complete\<close> (completion/complete) is not
  in this file. It holds the trigger context that opened it, the result pages of its providers
  (undefined until the first fetch has answered), the flag \<open>isIncomplete\<close> and the flag
  \<open>isCanceled\<close>, which \<open>cancel()\<close> sets; its \<open>input\<close> is the input of its trigger context.
\<close>

record Complete =
  c_option :: CompleteOption
  results :: "VimCompleteItem list list option"
  isIncomplete :: bool
  isCanceled :: bool

definition c_input :: "Complete \<Rightarrow> string" where
  \<comment> \<open>Modelled from the spec: \<open>complete.input\<close> is the original trigger input, the input of
      the trigger context that opened the aggregator\<close>
  "c_input c = opt_input (c_option c)"

type_synonym ref = nat

datatype event =
    TokenCancel ref
  | FloatingClose
  | FloatingShow string string bool
  | DocFireContentChanges ref
  | DocForceSync ref bool
  | DocPatchChange ref
  | CompleteCancel ref
  | CompleteDoComplete ref "string list"
  | CompleteInComplete ref string
  | CompleteFilterResults ref string
  | Coc_map
  | Coc_unmap
  | Coc_hide
  | Coc_reload
  | Coc_do_complete int "VimCompleteItem list"
  | SetCompleteopt string
  | SetLine int string
  | Cursor int int
  | Call string
  | Wait nat
  | SourcesResolve VimCompleteItem ref
  | SourcesCompleteDone VimCompleteItem "CompleteOption option"
  | ShowMessage string string
  | LoggerError string
  | LoggerDebug
  | ConsoleError string
  | CreateBuffer
  | BufSetOption string string
  | CreateNameSpace string

record world =
  completeItems :: "VimCompleteItem list"
  config :: CompleteConfig
  document :: "ref option"
  floating :: bool
  activted :: bool
  input :: "string option"
  lastInsert :: "LastInsert option"
  complete :: "ref option"
  recentScores :: "int \<times> string \<Rightarrow> int option"
  resolveTokenSource :: "ref option"
  changedTick :: int
  currIndex :: nat
  insertCharTs :: int
  insertLeaveTs :: int
  isResolving :: bool
  previewBuffer :: "ref option"
  docs :: "ref \<Rightarrow> Document"
  completes :: "ref \<Rightarrow> Complete"
  tokens :: "ref \<Rightarrow> bool"
  next_ref :: ref
  ws_bufnr :: int
  ws_documents :: "int \<Rightarrow> ref option"
  ws_completeOpt :: string
  env_pumevent :: bool
  env_floating :: bool
  env_isVim :: bool
  is_test :: bool
  now :: int
  out :: "event list"

record collab =
  byteSlice :: "string \<Rightarrow> int \<Rightarrow> int \<Rightarrow> string"
  util_isWord :: "string \<Rightarrow> bool"
  isTriggerCharacter :: "string \<Rightarrow> bool"
  characterIndex :: "string \<Rightarrow> int \<Rightarrow> int"
  sources_shouldTrigger :: "string \<Rightarrow> string \<Rightarrow> bool"
  sources_shouldCommit :: "VimCompleteItem option \<Rightarrow> string \<Rightarrow> bool"
  sources_getCompleteSources :: "CompleteOption \<Rightarrow> bool \<Rightarrow> string list"
  sources_getSource :: "string \<Rightarrow> string option"
  filterResults :: "Complete \<Rightarrow> string \<Rightarrow> VimCompleteItem list option"

subsection \<open>Effects\<close>

definition emit :: "event \<Rightarrow> world \<Rightarrow> world" where
  \<comment> \<open>one call to a collaborator or to the host, appended to the trace\<close>
  "emit e w = w\<lparr>out := out w @ [e]\<rparr>"

definition yield :: "(world \<Rightarrow> world) \<Rightarrow> world \<Rightarrow> world" where
  \<comment> \<open>a suspension point: the environment changes the world; the trace of this invocation
      records only its own calls\<close>
  "yield f w = (f w)\<lparr>out := out w\<rparr>"

subsection \<open>The methods\<close>

definition option_of :: "world \<Rightarrow> CompleteOption option" where
  \<comment> \<open>\<open>get option\<close>\<close>
  "option_of w = (case complete w of None \<Rightarrow> None | Some c \<Rightarrow> Some (c_option (completes w c)))"

definition bufnr_of :: "world \<Rightarrow> int option" where
  \<comment> \<open>\<open>get bufnr\<close>\<close>
  "bufnr_of w = (case option_of w of None \<Rightarrow> None | Some opt \<Rightarrow> Some (opt_bufnr opt))"

definition isActivted :: "world \<Rightarrow> bool" where
  "isActivted w = activted w"

definition closePreviewWindow :: "world \<Rightarrow> world" where
  "closePreviewWindow w =
     (if floating w then (emit FloatingClose w)\<lparr>floating := False\<rparr> else w)"

definition cancelResolve :: "world \<Rightarrow> world" where
  \<comment> \<open>\<open>if (this.resolveTokenSource) { cancel(); this.resolveTokenSource = null }\<close>, in
      \<open>stop\<close> and in \<open>onPumRedraw\<close>\<close>
  "cancelResolve w =
     (case resolveTokenSource w of
        None \<Rightarrow> w
      | Some t \<Rightarrow> (emit (TokenCancel t) w)\<lparr>tokens := (tokens w)(t := True),
                                            resolveTokenSource := None\<rparr>)"

definition complete_cancel :: "ref \<Rightarrow> world \<Rightarrow> world" where
  \<comment> \<open>Modelled from the spec: \<open>complete.cancel()\<close> (completion/complete is not in this
      file) marks the aggregator canceled\<close>
  "complete_cancel c w =
     (emit (CompleteCancel c) w)\<lparr>completes := (completes w)(c := (completes w c)\<lparr>isCanceled := True\<rparr>)\<rparr>"

type_synonym 'a prog = "world \<Rightarrow> (error + 'a) \<times> world"

definition ret :: "'a \<Rightarrow> 'a prog" where
  "ret x w = (Inr x, w)"

definition throw :: "error \<Rightarrow> 'a prog" where
  "throw e w = (Inl e, w)"

definition andThen :: "'a prog \<Rightarrow> ('a \<Rightarrow> 'b prog) \<Rightarrow> 'b prog" where
  \<comment> \<open>sequencing: an error of the first part ends the method with the world it left\<close>
  "andThen m f w = (case m w of (Inl e, w') \<Rightarrow> (Inl e, w') | (Inr x, w') \<Rightarrow> f x w')"

record 'a await =
  step :: "world \<Rightarrow> world"
  answer :: "error + 'a"

definition await :: "event \<Rightarrow> 'a await \<Rightarrow> 'a prog" where
  \<comment> \<open>\<open>await\<close> of a collaborator: the call, the environment's step, then the answer\<close>
  "await ev a w = (answer a, yield (step a) (emit ev w))"

definition stop :: "unit prog" where
  "stop w =
     (if \<not> activted w then (Inr (), w)
      else
        let w1 = cancelResolve w;
            w2 = closePreviewWindow w1;
            w3 = w2\<lparr>activted := False\<rparr>
        in case document w3 of
             None \<Rightarrow> (Inl TypeError, w3)
           | Some d \<Rightarrow>
               let w4 = w3\<lparr>docs := (docs w3)(d := (docs w3 d)\<lparr>paused := False\<rparr>)\<rparr>;
                   w5 = emit (DocFireContentChanges d) w4;
                   w6 = w5\<lparr>completeItems := []\<rparr>;
                   w7 = (case complete w6 of
                           None \<Rightarrow> w6
                         | Some c \<Rightarrow> (complete_cancel c w6)\<lparr>complete := None\<rparr>);
                   w8 = (if numberSelect (config w7) then emit Coc_unmap w7 else w7);
                   w9 = emit Coc_hide w8;
                   w10 = (if \<not> keepCompleteopt (config w9)
                          then emit (SetCompleteopt (ws_completeOpt w9)) w9 else w9)
               in (Inr (), w10))"

definition latestInsert :: "world \<Rightarrow> LastInsert option" where
  "latestInsert w =
     (case lastInsert w of
        None \<Rightarrow> None
      | Some m \<Rightarrow> if now w - timestamp m > 100 then None else Some m)"

definition latestInsertChar :: "world \<Rightarrow> string" where
  "latestInsertChar w = (case latestInsert w of None \<Rightarrow> [] | Some m \<Rightarrow> character m)"

definition onInsertCharPre :: "collab \<Rightarrow> unit await \<Rightarrow> string \<Rightarrow> unit prog" where
  \<comment> \<open>the second argument is the awaited \<open>coc#_reload\<close>; when it rejects the handler throws
      before the mark is recorded\<close>
  "onInsertCharPre D reload ch =
     andThen
       (\<lambda>w. if isActivted w \<and> \<not> env_pumevent w \<and> \<not> env_isVim w
                 \<and> completeItems w \<noteq> [] \<and> util_isWord D ch \<and> \<not> is_test w
              then await Coc_reload reload w else (Inr (), w))
       (\<lambda>_ w1.
          let m = \<lparr>character = ch, timestamp = now w1\<rparr>
          in (Inr (), w1\<lparr>lastInsert := Some m, insertCharTs := timestamp m\<rparr>))"

primrec getInput_loop :: "(string \<Rightarrow> bool) \<Rightarrow> string \<Rightarrow> nat \<Rightarrow> string" where
  \<comment> \<open>the \<open>for\<close> loop of \<open>getInput\<close> at index \<open>i\<close>: \<open>ch\<close> is null at 0 and \<open>pre[i - 1]\<close> above\<close>
  "getInput_loop isW pre 0 = js_slice pre 0 (int (length pre))"
| "getInput_loop isW pre (Suc n) =
     (if \<not> isW [pre ! n] then js_slice pre (int (Suc n)) (int (length pre))
      else getInput_loop isW pre n)"

definition getInput :: "Document \<Rightarrow> string \<Rightarrow> string" where
  "getInput doc pre = (if pre = [] then [] else getInput_loop (isWord doc) pre (length pre - 1))"

definition shouldTrigger :: "collab \<Rightarrow> world \<Rightarrow> Document \<Rightarrow> string option \<Rightarrow> bool" where
  "shouldTrigger D w doc pre =
     (case pre of
        None \<Rightarrow> False
      | Some p \<Rightarrow>
          if p = [] \<or> js_trim p = [] then False
          else if autoTrigger (config w) = ''none'' then False
          else if sources_shouldTrigger D p (filetype doc) then True
          else if autoTrigger (config w) \<noteq> ''always'' then False
          else if isWord doc (js_slice_from p (- 1)) then
            (if minTriggerInputLength (config w) = 1 then True
             else int (length (getInput doc p)) \<ge> minTriggerInputLength (config w))
          else False)"

definition digit :: "nat \<Rightarrow> string" where
  "digit i = [char_of (48 + i)]"

definition numbered :: "nat \<Rightarrow> VimCompleteItem \<Rightarrow> VimCompleteItem" where
  \<comment> \<open>the body of the loop of \<open>appendNumber\<close>; an absent word prints as \<open>undefined\<close>\<close>
  "numbered i item =
     (let idx = (if i = 10 then 0 else i);
          w = (case word item of None \<Rightarrow> ''undefined'' | Some s \<Rightarrow> s);
          a = (case abbr item of None \<Rightarrow> w | Some s \<Rightarrow> if s = [] then w else s)
      in item\<lparr>abbr := Some (digit idx @ '' '' @ a)\<rparr>)"

fun appendNumber_loop :: "nat \<Rightarrow> VimCompleteItem list \<Rightarrow> VimCompleteItem list" where
  "appendNumber_loop i [] = []"
| "appendNumber_loop i (x # xs) =
     (if i \<le> 10 then numbered i x # appendNumber_loop (Suc i) xs else x # xs)"

definition appendNumber :: "world \<Rightarrow> VimCompleteItem list \<Rightarrow> VimCompleteItem list" where
  "appendNumber w items = (if \<not> numberSelect (config w) then items else appendNumber_loop 1 items)"

definition showCompletion :: "int \<Rightarrow> VimCompleteItem list \<Rightarrow> unit prog" where
  "showCompletion c items w =
     (let items' = appendNumber w items
      in case document w of
           None \<Rightarrow> (Inl TypeError, w)
         | Some d \<Rightarrow>
             let w1 = w\<lparr>changedTick := changedtick (docs w d)\<rparr>;
                 w2 = (if numberSelect (config w1) then emit Coc_map w1 else w1);
                 w3 = emit (Coc_do_complete c items') w2
             in (Inr (), w3\<lparr>completeItems := items'\<rparr>))"

record resume_env =
  r_patchChange :: "unit await"
  r_wait :: "world \<Rightarrow> world"
  r_completeInComplete :: "VimCompleteItem list option await"

definition resume_show :: "VimCompleteItem list option \<Rightarrow> unit prog" where
  \<comment> \<open>the end of \<open>resumeCompletion\<close>, from \<open>if (!this.isActivted) return\<close>\<close>
  "resume_show items w =
     (if \<not> isActivted w then (Inr (), w)
      else case items of
             None \<Rightarrow> stop w
           | Some xs \<Rightarrow>
               if xs = [] then stop w
               else (case option_of w of
                       None \<Rightarrow> (Inl TypeError, w)
                     | Some opt \<Rightarrow> showCompletion (col opt) xs w))"

definition resume_settle :: "resume_env \<Rightarrow> ref \<Rightarrow> unit prog" where
  \<comment> \<open>\<open>await document.patchChange(); document.forceSync(); await wait(30)\<close>\<close>
  "resume_settle E d =
     andThen (await (DocPatchChange d) (r_patchChange E))
       (\<lambda>_ w. (Inr (), yield (r_wait E) (emit (Wait 30) (emit (DocForceSync d False) w))))"

definition resume_requery :: "resume_env \<Rightarrow> ref \<Rightarrow> string \<Rightarrow> VimCompleteItem list option prog" where
  \<comment> \<open>\<open>await complete.completeInComplete(search)\<close>\<close>
  "resume_requery E c s = await (CompleteInComplete c s) (r_completeInComplete E)"

definition resume_incomplete :: "resume_env \<Rightarrow> ref \<Rightarrow> ref \<Rightarrow> string \<Rightarrow> int \<Rightarrow> unit prog" where
  \<comment> \<open>the branch \<open>if (complete.isIncomplete)\<close> and what follows it; \<open>tick\<close> is the
      \<open>changedtick\<close> read before the first \<open>await\<close>\<close>
  "resume_incomplete E c d s tick =
     andThen (resume_settle E d)
       (\<lambda>_ w4.
          if changedtick (docs w4 d) \<noteq> tick then (Inr (), w4)
          else andThen (resume_requery E c s)
                 (\<lambda>items w5.
                    if changedtick (docs w5 d) \<noteq> tick then (Inr (), w5)
                    else resume_show items w5) w4)"

definition resumeCompletion :: "collab \<Rightarrow> resume_env \<Rightarrow> string option \<Rightarrow> unit prog" where
  "resumeCompletion D E search w =
     (if \<not> activted w then (Inr (), w)
      else case complete w of
        None \<Rightarrow> (Inl TypeError, w)
      | Some c \<Rightarrow>
          if results (completes w c) = None \<or> search = input w then (Inr (), w)
          else (case search of
            None \<Rightarrow> stop w
          | Some s \<Rightarrow>
              if js_endsWith s '' '' \<or> length s < length (c_input (completes w c)) then stop w
              else (case document w of
                None \<Rightarrow> (Inl TypeError, w)
              | Some d \<Rightarrow>
                  let tick = changedtick (docs w d);
                      w1 = w\<lparr>input := Some s\<rparr>
                  in if isIncomplete (completes w1 c) then resume_incomplete E c d s tick w1
                     else resume_show (filterResults D (completes w1 c) s)
                            (emit (CompleteFilterResults c s) w1))))"

definition the_default :: "'a \<Rightarrow> 'a option \<Rightarrow> 'a" where
  "the_default x y = (case y of None \<Rightarrow> x | Some z \<Rightarrow> z)"

definition nth_opt :: "'a list \<Rightarrow> nat \<Rightarrow> 'a option" where
  \<comment> \<open>\<open>xs[i]\<close>: undefined out of range\<close>
  "nth_opt xs i = (if i < length xs then Some (xs ! i) else None)"

definition word_text :: "VimCompleteItem \<Rightarrow> string" where
  \<comment> \<open>\<open>item.word\<close> where a string is expected: an absent word prints as \<open>undefined\<close>\<close>
  "word_text item = (case word item of None \<Rightarrow> ''undefined'' | Some s \<Rightarrow> s)"

definition same_item :: "VimCompleteItem \<Rightarrow> VimCompleteItem \<Rightarrow> bool" where
  \<comment> \<open>\<open>o => o.word == item.word && o.user_data == item.user_data\<close>\<close>
  "same_item item x = (word x = word item \<and> user_data x = user_data item)"

definition indexOf :: "VimCompleteItem list \<Rightarrow> VimCompleteItem \<Rightarrow> nat" where
  \<comment> \<open>the index of the element that \<open>find\<close> returned for \<open>item\<close>: the first that matches\<close>
  "indexOf xs item = length (takeWhile (\<lambda>x. \<not> same_item item x) xs)"

definition new_Complete :: "CompleteOption \<Rightarrow> world \<Rightarrow> ref \<times> world" where
  \<comment> \<open>Modelled from the spec: \<open>new Complete(option, ...)\<close> (completion/complete is not in
      this file) is a fresh aggregator holding the trigger context, with no results yet\<close>
  "new_Complete opt w =
     (next_ref w,
      w\<lparr>completes := (completes w)(next_ref w :=
            \<lparr>c_option = opt, results = None, isIncomplete = False, isCanceled = False\<rparr>),
        next_ref := Suc (next_ref w)\<rparr>)"

definition new_token :: "world \<Rightarrow> ref \<times> world" where
  \<comment> \<open>\<open>new CancellationTokenSource()\<close> of the language-server protocol library: a fresh
      token, not canceled; \<open>cancel()\<close> makes it report canceled\<close>
  "new_token w = (next_ref w, w\<lparr>tokens := (tokens w)(next_ref w := False), next_ref := Suc (next_ref w)\<rparr>)"

definition addRecent :: "string option \<Rightarrow> int \<Rightarrow> world \<Rightarrow> world" where
  "addRecent wd b w =
     (case wd of
        None \<Rightarrow> w
      | Some s \<Rightarrow> if s = [] then w else w\<lparr>recentScores := (recentScores w)((b, s) \<mapsto> now w)\<rparr>)"

definition getPreviousContent :: "collab \<Rightarrow> (int \<times> int) await \<Rightarrow> ref \<Rightarrow> string option prog" where
  "getPreviousContent D getcurpos d =
     andThen (await (Call ''getcurpos'') getcurpos)
       (\<lambda>(lnum, cl) w.
          if (case option_of w of None \<Rightarrow> False | Some opt \<Rightarrow> lnum \<noteq> linenr opt) then (Inr None, w)
          else let ln = getline (docs w d) (lnum - 1)
               in (Inr (Some (if cl = 1 then [] else byteSlice D ln 0 (cl - 1))), w))"

definition getResumeInput :: "collab \<Rightarrow> (int \<times> int) await \<Rightarrow> string option prog" where
  \<comment> \<open>\<open>option\<close> and \<open>document\<close> are the objects held at entry, read after the \<open>await\<close>\<close>
  "getResumeInput D getcurpos w =
     (if \<not> activted w then (Inr None, w)
      else andThen (await (Call ''getcurpos'') getcurpos)
             (\<lambda>(lnum, cl) w1.
                case complete w of
                  None \<Rightarrow> (Inl TypeError, w1)
                | Some c \<Rightarrow>
                    let opt = c_option (completes w1 c)
                    in if lnum \<noteq> linenr opt \<or> cl < col opt + 1 then (Inr None, w1)
                       else (case document w of
                               None \<Rightarrow> (Inl TypeError, w1)
                             | Some d \<Rightarrow>
                                 (Inr (Some (byteSlice D (getline (docs w1 d) (lnum - 1))
                                               (col opt) (cl - 1))), w1))) w)"

definition completeOpt :: "world \<Rightarrow> string" where
  "completeOpt w =
     (if noselect (config w) then ''noselect,menuone'' else ''noinsert,menuone'')
       @ (if enablePreview (config w) then '',preview'' else [])"

definition start :: "ref \<Rightarrow> unit prog" where
  "start cnew w =
     (let was = activted w;
          w1 = closePreviewWindow (w\<lparr>activted := True, isResolving := False\<rparr>)
      in case (if was then (case complete w1 of
                              None \<Rightarrow> Inl TypeError
                            | Some c \<Rightarrow> Inr (complete_cancel c w1))
               else Inr w1) of
           Inl e \<Rightarrow> (Inl e, w1)
         | Inr w2 \<Rightarrow>
             let w3 = w2\<lparr>complete := Some cnew, completeItems := []\<rparr>;
                 w4 = (if \<not> keepCompleteopt (config w3)
                       then emit (SetCompleteopt (completeOpt w3)) w3 else w3)
             in (case document w4 of
                   None \<Rightarrow> (Inl TypeError, w4)
                 | Some d \<Rightarrow>
                     (Inr (), (emit (DocForceSync d True) w4)
                                \<lparr>docs := (docs w4)(d := (docs w4 d)\<lparr>paused := True\<rparr>)\<rparr>)))"

record doComplete_env =
  dc_doComplete :: "VimCompleteItem list await"
  dc_getcurpos :: "(int \<times> int) await"
  dc_resume :: resume_env

definition doComplete_sources :: "collab \<Rightarrow> CompleteOption \<Rightarrow> world \<Rightarrow> error + string list" where
  \<comment> \<open>\<open>_doComplete\<close> from \<open>let pre = ...\<close> to the end of the choice of \<open>arr\<close>: the providers
      for this trigger context\<close>
  "doComplete_sources D opt w =
     (let pre = byteSlice D (line opt) 0 (colnr opt - 1)
      in case (if source opt = None \<and> pre \<noteq> []
               then (case document w of
                       None \<Rightarrow> Inl TypeError
                     | Some d \<Rightarrow> Inr (\<not> isWord (docs w d) [last pre]
                                       \<and> sources_shouldTrigger D pre (opt_filetype opt)))
               else Inr False) of
           Inl e \<Rightarrow> Inl e
         | Inr isTriggered \<Rightarrow>
             Inr (case source opt of
                    None \<Rightarrow> sources_getCompleteSources D opt isTriggered
                  | Some nm \<Rightarrow> (case sources_getSource D nm of None \<Rightarrow> [] | Some s \<Rightarrow> [s])))"

definition doComplete_fetch :: "collab \<Rightarrow> doComplete_env \<Rightarrow> ref \<Rightarrow> string list \<Rightarrow> unit prog" where
  \<comment> \<open>\<open>_doComplete\<close> from \<open>let items = await this.complete.doComplete(arr)\<close>, for the new
      aggregator \<open>c\<close>\<close>
  "doComplete_fetch D E c arr =
     andThen (await (CompleteDoComplete c arr) (dc_doComplete E))
       (\<lambda>items w3.
          if isCanceled (completes w3 c) \<or> \<not> isActivted w3 then (Inr (), w3)
          else if items = [] then stop w3
          else andThen (getResumeInput D (dc_getcurpos E))
                 (\<lambda>search w4.
                    if isCanceled (completes w4 c) then (Inr (), w4)
                    else if search = Some (opt_input (c_option (completes w4 c)))
                    then showCompletion (col (c_option (completes w4 c))) items w4
                    else resumeCompletion D (dc_resume E) search w4) w3)"

definition priv_doComplete :: "collab \<Rightarrow> doComplete_env \<Rightarrow> CompleteOption \<Rightarrow> unit prog" where
  \<comment> \<open>\<open>_doComplete\<close>; \<open>option\<close> is the object the new aggregator holds\<close>
  "priv_doComplete D E opt w0 =
     (let w = w0\<lparr>input := Some (opt_input opt)\<rparr>
      in case doComplete_sources D opt w of
           Inl e \<Rightarrow> (Inl e, w)
         | Inr arr \<Rightarrow>
             if arr = [] then (Inr (), w)
             else
               let (c, w1) = new_Complete opt w
               in andThen (start c) (\<lambda>_. doComplete_fetch D E c arr) w1)"

definition startCompletion :: "collab \<Rightarrow> doComplete_env \<Rightarrow> CompleteOption \<Rightarrow> unit prog" where
  "startCompletion D E opt w0 =
     (let w = w0\<lparr>ws_bufnr := opt_bufnr opt\<rparr>
      in case ws_documents w (opt_bufnr opt) of
           None \<Rightarrow> (Inr (), w)
         | Some d \<Rightarrow>
             let opt' = opt\<lparr>opt_filetype := filetype (docs w d)\<rparr>;
                 w1 = w\<lparr>document := Some d\<rparr>
             in (case priv_doComplete D E opt' w1 of
                   (Inr u, w2) \<Rightarrow> (Inr (), w2)
                 | (Inl e, w2) \<Rightarrow>
                     andThen stop
                       (\<lambda>_ w3. (Inr (), emit (LoggerError (stack e))
                                          (emit (ShowMessage (''Error happens on complete: '' @ message e)
                                                   ''error'') w3))) w2))"

definition triggerCompletion ::
  "collab \<Rightarrow> CompleteOption await \<Rightarrow> doComplete_env \<Rightarrow> ref \<Rightarrow> string option \<Rightarrow> unit prog" where
  "triggerCompletion D gco E d pre w =
     (if \<not> shouldTrigger D w (docs w d) pre then (Inr (), w)
      else andThen (await (Call ''coc#util#get_complete_option'') gco)
             (\<lambda>opt w1.
                case pre of
                  None \<Rightarrow> (Inl TypeError, w1)
                | Some p \<Rightarrow>
                    startCompletion D E
                      (opt\<lparr>triggerCharacter := (if p = [] then None else Some [last p])\<rparr>)
                      (emit LoggerDebug w1)) w)"

record textChangedI_env =
  ti_patchChange :: "unit await"
  ti_getcurpos :: "(int \<times> int) await"
  ti_get_complete_option :: "CompleteOption await"
  ti_setline :: "unit await"
  ti_cursor :: "unit await"
  ti_start :: doComplete_env
  ti_resume :: resume_env

definition commit :: "textChangedI_env \<Rightarrow> VimCompleteItem option \<Rightarrow> string \<Rightarrow> unit prog" where
  \<comment> \<open>the body of \<open>if (sources.shouldCommit(item, latestInsertChar))\<close> in \<open>onTextChangedI\<close>\<close>
  "commit E item ch w =
     (case option_of w of
        None \<Rightarrow> (Inl TypeError, w)
      | Some opt \<Rightarrow>
          andThen stop
            (\<lambda>_ w2.
               case item of
                 None \<Rightarrow> (Inl TypeError, w2)
               | Some it \<Rightarrow>
                   let newLine = js_slice (line opt) 0 (col opt) @ word_text it @ ch
                                   @ js_slice_from (line opt) (colnr opt - 1)
                   in andThen (await (SetLine (linenr opt) newLine) (ti_setline E))
                        (\<lambda>_ w3.
                           case word it of
                             None \<Rightarrow> (Inl TypeError, w3)
                           | Some s \<Rightarrow>
                               await (Cursor (linenr opt) (col opt + int (length s) + 2))
                                 (ti_cursor E) w3) w2) w)"

definition onTextChangedI :: "collab \<Rightarrow> textChangedI_env \<Rightarrow> int \<Rightarrow> unit prog" where
  "onTextChangedI D E bnr w0 =
     (let ch = latestInsertChar w0;
          w = w0\<lparr>lastInsert := None\<rparr>
      in case ws_documents w (ws_bufnr w) of
           None \<Rightarrow> (Inr (), w)
         | Some d \<Rightarrow>
             andThen (await (DocPatchChange d) (ti_patchChange E))
               (\<lambda>_ w1.
                  if \<not> isActivted w1 then
                    (if ch = [] then (Inr (), w1)
                     else andThen (getPreviousContent D (ti_getcurpos E) d)
                            (\<lambda>pre w2.
                               let lst = (case pre of None \<Rightarrow> [] | Some p \<Rightarrow> js_slice_from p (- 1))
                               in if \<not> list_ex js_whitespace lst
                                  then triggerCompletion D (ti_get_complete_option E) (ti_start E) d pre w2
                                  else (Inr (), w2)) w1)
                  else if Some bnr \<noteq> bufnr_of w1 then (Inr (), w1)
                  else
                   (case (if acceptSuggestionOnCommitCharacter (config w1) \<and> ch \<noteq> []
                          then (case document w1 of
                                  None \<Rightarrow> Inl TypeError
                                | Some dd \<Rightarrow> Inr (\<not> isWord (docs w1 dd) ch))
                          else Inr False) of
                      Inl e \<Rightarrow> (Inl e, w1)
                    | Inr nonword \<Rightarrow>
                        let item = (if currIndex w1 \<noteq> 0
                                    then nth_opt (completeItems w1) (currIndex w1 - 1)
                                    else nth_opt (completeItems w1) 0)
                        in if nonword \<and> sources_shouldCommit D item ch then commit E item ch w1
                           else
                             andThen (getPreviousContent D (ti_getcurpos E) d)
                               (\<lambda>content w2.
                                  case content of
                                    None \<Rightarrow> stop w2
                                  | Some ct \<Rightarrow>
                                      let chr = js_slice_from ct (- 1)
                                      in if isTriggerCharacter D chr
                                            \<and> sources_shouldTrigger D ct (filetype (docs w2 d))
                                         then andThen (await (Call ''coc#util#get_complete_option'')
                                                         (ti_get_complete_option E))
                                                (\<lambda>opt w3.
                                                   startCompletion D (ti_start E)
                                                     (opt\<lparr>triggerCharacter := Some chr\<rparr>)
                                                     (emit LoggerDebug w3)) w2
                                         else if \<not> isActivted w2 then (Inr (), w2)
                                         else (case option_of w2 of
                                                 None \<Rightarrow> (Inl TypeError, w2)
                                               | Some opt \<Rightarrow>
                                                   resumeCompletion D (ti_resume E)
                                                     (Some (js_slice_from ct (characterIndex D ct (col opt))))
                                                     w2)) w1)) w)"

record completeDone_env =
  cd_resolve :: "VimCompleteItem await"
  cd_wait :: "world \<Rightarrow> world"
  cd_mode :: "string await"
  cd_patchChange :: "unit await"
  cd_getcurpos :: "(int \<times> int) await"
  cd_doCompleteDone :: "unit await"

definition completeDone_settle ::
  "completeDone_env \<Rightarrow> ref \<Rightarrow> VimCompleteItem \<Rightarrow> (VimCompleteItem \<times> string) prog" where
  \<comment> \<open>the \<open>try\<close> block of \<open>onCompleteDone\<close> down to \<open>let mode = await nvim.call('mode')\<close>; the
      answer of \<open>doCompleteResolve\<close> is the item as the provider leaves it\<close>
  "completeDone_settle E d item w =
     (let (t, w1) = new_token w
      in andThen (await (SourcesResolve item t) (cd_resolve E))
           (\<lambda>it w2.
              let w3 = addRecent (word it) (bufnr (docs w2 d)) w2;
                  w4 = yield (cd_wait E) (emit (Wait 50) w3)
              in andThen (await (Call ''mode'') (cd_mode E)) (\<lambda>mode. ret (it, mode)) w4) w1)"

definition completeDone_content :: "collab \<Rightarrow> completeDone_env \<Rightarrow> ref \<Rightarrow> string option prog" where
  \<comment> \<open>\<open>await document.patchChange(); let content = await this.getPreviousContent(document)\<close>\<close>
  "completeDone_content D E d =
     andThen (await (DocPatchChange d) (cd_patchChange E))
       (\<lambda>_. getPreviousContent D (cd_getcurpos E) d)"

definition completeDone_try ::
  "collab \<Rightarrow> completeDone_env \<Rightarrow> ref \<Rightarrow> CompleteOption option \<Rightarrow> VimCompleteItem
     \<Rightarrow> int \<Rightarrow> int \<Rightarrow> unit prog" where
  \<comment> \<open>the \<open>try\<close> block of \<open>onCompleteDone\<close>; \<open>ts\<close> and \<open>leaveTs\<close> are the two timestamps read
      before it\<close>
  "completeDone_try D E d opt item ts leaveTs =
     andThen (completeDone_settle E d item)
       (\<lambda>(it, mode) w5.
          if mode \<noteq> ''i'' \<or> insertCharTs w5 \<noteq> ts \<or> insertLeaveTs w5 \<noteq> leaveTs then (Inr (), w5)
          else andThen (completeDone_content D E d)
                 (\<lambda>content w7.
                    case content of
                      None \<Rightarrow> (Inl TypeError, w7)
                    | Some ct \<Rightarrow>
                        if \<not> js_endsWith ct (word_text it) then (Inr (), w7)
                        else andThen (await (SourcesCompleteDone it opt) (cd_doCompleteDone E))
                               (\<lambda>_ w8. (Inr (), emit (DocForceSync d False) w8)) w7) w5)"

definition onCompleteDone :: "collab \<Rightarrow> completeDone_env \<Rightarrow> VimCompleteItem \<Rightarrow> unit prog" where
  "onCompleteDone D E item w =
     (case document w of
        None \<Rightarrow> (Inr (), w)
      | Some d \<Rightarrow>
          if \<not> isActivted w \<or> word item = None then (Inr (), w)
          else
            let opt = option_of w;
                found = find (same_item item) (completeItems w)
            in andThen stop
                 (\<lambda>_ w1.
                    case found of
                      None \<Rightarrow> (Inr (), w1)
                    | Some it \<Rightarrow>
                        (case completeDone_try D E d opt it (insertCharTs w1) (insertLeaveTs w1) w1 of
                           (Inl e, w2) \<Rightarrow>
                             (Inr (), emit (LoggerError (''error on complete done'' @ stack e))
                                        (emit (ConsoleError (stack e)) w2))
                         | (Inr u, w2) \<Rightarrow> (Inr (), w2))) w)"

type_synonym PumBounding = "int \<times> int \<times> int \<times> int"

record pumRedraw_env =
  pr_resolve :: "VimCompleteItem await"
  pr_createNewBuffer :: "ref await"
  pr_buftype :: "unit await"
  pr_bufhidden :: "unit await"
  pr_createNameSpace :: "int await"
  pr_wait :: "world \<Rightarrow> world"
  pr_show :: "unit await"

definition createPreviewBuffer :: "pumRedraw_env \<Rightarrow> unit prog" where
  "createPreviewBuffer E =
     andThen (await CreateBuffer (pr_createNewBuffer E))
       (\<lambda>b w. andThen (await (BufSetOption ''buftype'' ''nofile'') (pr_buftype E))
                 (\<lambda>_. await (BufSetOption ''bufhidden'' ''hide'') (pr_bufhidden E))
                 (w\<lparr>previewBuffer := Some b\<rparr>))"

definition item_content :: "VimCompleteItem \<Rightarrow> string" where
  \<comment> \<open>\<open>currItem.documentation ? currItem.documentation.value : currItem.info\<close>; absent is
      the empty string, as both are falsy\<close>
  "item_content cur =
     (case documentation cur of
        Some (k, v) \<Rightarrow> v
      | None \<Rightarrow> (case info cur of None \<Rightarrow> [] | Some s \<Rightarrow> s))"

definition item_kind :: "VimCompleteItem \<Rightarrow> string" where
  "item_kind cur =
     (case documentation cur of
        Some (k, v) \<Rightarrow> if k = ''markdown'' then ''markdown'' else ''plaintext''
      | None \<Rightarrow> ''plaintext'')"

definition pum_buffer :: "pumRedraw_env \<Rightarrow> unit prog" where
  \<comment> \<open>\<open>if (!this.previewBuffer) await this.createPreviewBuffer()\<close>\<close>
  "pum_buffer E w = (if previewBuffer w = None then createPreviewBuffer E w else (Inr (), w))"

definition pum_floating :: "pumRedraw_env \<Rightarrow> unit prog" where
  \<comment> \<open>\<open>if (!this.floating) { ...; this.floating = new FloatingWindow(...) }\<close>\<close>
  "pum_floating E w =
     (if \<not> floating w
      then andThen (await (CreateNameSpace ''coc-pum'') (pr_createNameSpace E))
             (\<lambda>srcId w1. (Inr (), w1\<lparr>floating := True\<rparr>)) w
      else (Inr (), w))"

definition pum_show :: "pumRedraw_env \<Rightarrow> ref \<Rightarrow> VimCompleteItem \<Rightarrow> unit prog" where
  \<comment> \<open>from \<open>await wait(10)\<close> to the end of \<open>onPumRedraw\<close>\<close>
  "pum_show E t cur w =
     (let w5 = yield (pr_wait E) (emit (Wait 10) w)
      in if tokens w5 t \<or> \<not> isActivted w5 then (Inr (), w5)
         else if \<not> floating w5 then (Inl TypeError, w5)
         else andThen (await (FloatingShow (item_content cur) (item_kind cur) (hasDetail cur))
                         (pr_show E))
                (\<lambda>_ w6. (Inr (), w6\<lparr>resolveTokenSource := None\<rparr>)) w5)"

definition pum_preview :: "pumRedraw_env \<Rightarrow> ref \<Rightarrow> VimCompleteItem \<Rightarrow> unit prog" where
  \<comment> \<open>\<open>onPumRedraw\<close> after \<open>doCompleteResolve\<close> has answered, for the token \<open>t\<close>\<close>
  "pum_preview E t cur w =
     (if tokens w t then (Inr (), w)
      else if item_content cur = []
      then (Inr (), (closePreviewWindow w)\<lparr>resolveTokenSource := None\<rparr>)
      else andThen (pum_buffer E) (\<lambda>_. andThen (pum_floating E) (\<lambda>_. pum_show E t cur)) w)"

definition pum_select :: "VimCompleteItem \<Rightarrow> world \<Rightarrow> world" where
  \<comment> \<open>\<open>onPumRedraw\<close> from \<open>let currItem = ...\<close> to the assignment of \<open>currIndex\<close>\<close>
  "pum_select item w =
     (case find (same_item item) (completeItems w) of
        None \<Rightarrow> closePreviewWindow (w\<lparr>currIndex := 0\<rparr>)
      | Some currItem \<Rightarrow> w\<lparr>currIndex := indexOf (completeItems w) item + 1\<rparr>)"

definition pum_request :: "VimCompleteItem \<Rightarrow> world \<Rightarrow> ref \<times> world" where
  \<comment> \<open>\<open>onPumRedraw\<close> for an item that is found, from the assignment of \<open>currIndex\<close> to
      \<open>let source = this.resolveTokenSource = new CancellationTokenSource()\<close>\<close>
  "pum_request item w =
     (let (t, w1) = new_token (pum_select item w)
      in (t, w1\<lparr>resolveTokenSource := Some t\<rparr>))"

definition onPumRedraw :: "pumRedraw_env \<Rightarrow> VimCompleteItem \<Rightarrow> PumBounding \<Rightarrow> unit prog" where
  "onPumRedraw E item bounding w0 =
     (if \<not> env_floating w0 then (Inr (), w0)
      else
        let w = cancelResolve w0
        in if lastInsert w \<noteq> None then (Inr (), w)
           else case find (same_item item) (completeItems w) of
                  None \<Rightarrow> (Inr (), pum_select item w)
                | Some currItem \<Rightarrow>
                    let (t, w2) = pum_request item w
                    in andThen (await (SourcesResolve currItem t) (pr_resolve E))
                         (pum_preview E t) w2)"

definition pum_suspended :: "VimCompleteItem \<Rightarrow> world \<Rightarrow> world" where
  \<comment> \<open>the world that an invocation of \<open>onPumRedraw\<close> leaves when it suspends in
      \<open>await sources.doCompleteResolve(currItem, token)\<close>, or when it returns before\<close>
  "pum_suspended item w0 =
     (if \<not> env_floating w0 then w0
      else
        let w = cancelResolve w0
        in if lastInsert w \<noteq> None then w
           else case find (same_item item) (completeItems w) of
                  None \<Rightarrow> pum_select item w
                | Some currItem \<Rightarrow>
                    let (t, w2) = pum_request item w
                    in emit (SourcesResolve currItem t) w2)"

record textChangedP_env =
  tp_patchChange :: "unit await"
  tp_col :: "int await"
  tp_resume :: resume_env

definition textChangedP_search :: "collab \<Rightarrow> textChangedP_env \<Rightarrow> ref \<Rightarrow> ref \<Rightarrow> unit prog" where
  \<comment> \<open>\<open>onTextChangedP\<close> from \<open>let col = await this.nvim.call('col', '.')\<close>; \<open>option\<close> is the
      object of the aggregator held at entry, which the indent patch writes\<close>
  "textChangedP_search D E c d =
     andThen (await (Call ''col'') (tp_col E))
       (\<lambda>cl w3.
          let opt = c_option (completes w3 c);
              ln = getline (docs w3 d) (linenr opt - 1);
              ind = takeWhile js_whitespace (line opt);
              curr = takeWhile js_whitespace ln
          in if length ind \<noteq> length curr then
               (let newCol = col opt + int (length curr) - int (length ind)
                in if newCol > cl - 1 then (Inr (), w3)
                   else
                     let opt' = opt\<lparr>col := newCol,
                            line := curr @ js_slice_from (line opt) (int (length ind)),
                            colnr := colnr opt + int (length curr) - int (length ind)\<rparr>;
                         w4 = w3\<lparr>completes := (completes w3)
                                 (c := (completes w3 c)\<lparr>c_option := opt'\<rparr>)\<rparr>
                     in resumeCompletion D (tp_resume E)
                          (Some (byteSlice D ln (col opt') (cl - 1))) w4)
             else resumeCompletion D (tp_resume E)
                    (Some (byteSlice D ln (col opt) (cl - 1))) w3)"

definition textChangedP_changed :: "collab \<Rightarrow> textChangedP_env \<Rightarrow> ref \<Rightarrow> ref \<Rightarrow> unit prog" where
  \<comment> \<open>\<open>onTextChangedP\<close> when \<open>await document.patchChange()\<close> has answered\<close>
  "textChangedP_changed D E c d w1 =
     (let hasInsert = (latestInsert w1 \<noteq> None);
          w2 = w1\<lparr>lastInsert := None\<rparr>
      in if changedtick (docs w2 d) = changedTick w2 then (Inr (), w2)
         else if \<not> hasInsert then (Inr (), w2\<lparr>isResolving := True\<rparr>)
         else textChangedP_search D E c d w2)"

definition onTextChangedP :: "collab \<Rightarrow> textChangedP_env \<Rightarrow> unit prog" where
  "onTextChangedP D E w =
     (case complete w of
        None \<Rightarrow> (Inr (), w)
      | Some c \<Rightarrow>
          (case document w of
             None \<Rightarrow> (Inl TypeError, w)
           | Some d \<Rightarrow>
               andThen (await (DocPatchChange d) (tp_patchChange E))
                 (\<lambda>_. textChangedP_changed D E c d) w))"

definition onInsertLeave :: "int \<Rightarrow> unit prog" where
  "onInsertLeave bnr w =
     (let w1 = w\<lparr>insertLeaveTs := now w\<rparr>;
          w2 = (case ws_documents w1 bnr of None \<Rightarrow> w1 | Some d \<Rightarrow> emit (DocForceSync d True) w1)
      in stop w2)"

definition onInsertEnter :: "collab \<Rightarrow> CompleteOption await \<Rightarrow> doComplete_env \<Rightarrow> unit prog" where
  "onInsertEnter D gco E w =
     (if \<not> triggerAfterInsertEnter (config w) then (Inr (), w)
      else andThen (await (Call ''coc#util#get_complete_option'') gco)
             (\<lambda>opt w1.
                if int (length (opt_input opt)) \<ge> minTriggerInputLength (config w1)
                then startCompletion D E opt w1 else (Inr (), w1)) w)"

definition hasSelected :: "world \<Rightarrow> bool" where
  "hasSelected w =
     (if env_pumevent w then currIndex w \<noteq> 0
      else if \<not> noselect (config w) then True
      else isResolving w)"

subsection \<open>The selection invariant and executable example values\<close>

definition sel_inv :: "world \<Rightarrow> bool" where
  \<comment> \<open>the selection index is within \<open>[0, completeItems.length]\<close>\<close>
  "sel_inv w = (currIndex w \<le> length (completeItems w))"

definition trailing_word_run :: "Document \<Rightarrow> string \<Rightarrow> nat" where
  \<comment> \<open>the spec's words: the length of the run of word characters that ends the text\<close>
  "trailing_word_run doc p = length (takeWhile (\<lambda>c. isWord doc [c]) (rev p))"

definition new_events :: "world \<Rightarrow> world \<Rightarrow> event list" where
  \<comment> \<open>the calls an invocation made, from the world it started in to the one it left\<close>
  "new_events w w' = drop (length (out w)) (out w')"

definition cfg0 :: CompleteConfig where
  \<comment> \<open>the defaults of \<open>getCompleteConfig\<close>\<close>
  "cfg0 = \<lparr>autoTrigger = ''always'', keepCompleteopt = False,
            acceptSuggestionOnCommitCharacter = False, previewIsKeyword = ''@,48-57,_192-255'',
            enablePreview = False, maxPreviewWidth = 50, triggerAfterInsertEnter = False,
            noselect = True, numberSelect = False, maxItemCount = 50, timeout = 500,
            minTriggerInputLength = 1, snippetIndicator = ''~'', fixInsertedWord = True,
            localityBonus = True\<rparr>"

definition lower_word :: "string \<Rightarrow> bool" where
  "lower_word s = (s \<noteq> [] \<and> list_all (\<lambda>c. c \<in> set ''abcdefghijklmnopqrstuvwxyz'') s)"

definition doc0 :: Document where
  "doc0 = \<lparr>bufnr = 1, filetype = ''ts'', changedtick = 7, paused = True,
            isWord = lower_word, getline = (\<lambda>n. if n = 0 then ''fo'' else [])\<rparr>"

definition opt0 :: CompleteOption where
  "opt0 = \<lparr>opt_bufnr = 1, linenr = 1, col = 0, colnr = 3, line = ''fo'', opt_input = ''fo'',
            opt_filetype = ''ts'', triggerCharacter = None, source = None\<rparr>"

definition item0 :: "string \<Rightarrow> VimCompleteItem" where
  "item0 s = \<lparr>word = Some s, abbr = None, user_data = None, info = None,
               documentation = None, hasDetail = False\<rparr>"

definition cmpl0 :: Complete where
  "cmpl0 = \<lparr>c_option = opt0, results = Some [[item0 ''foo'', item0 ''food'', item0 ''fox'']],
             isIncomplete = False, isCanceled = False\<rparr>"

definition world0 :: world where
  \<comment> \<open>an active session on the line \<open>fo\<close>, showing \<open>foo\<close>, \<open>food\<close>, \<open>fox\<close>\<close>
  "world0 = \<lparr>completeItems = [item0 ''foo'', item0 ''food'', item0 ''fox''], config = cfg0,
              document = Some 0, floating = False, activted = True, input = Some ''fo'',
              lastInsert = None, complete = Some 1, recentScores = Map.empty,
              resolveTokenSource = None, changedTick = 7, currIndex = 0, insertCharTs = 0,
              insertLeaveTs = 0, isResolving = False, previewBuffer = None,
              docs = (\<lambda>_. doc0), completes = (\<lambda>_. cmpl0), tokens = (\<lambda>_. False), next_ref = 2,
              ws_bufnr = 1, ws_documents = (\<lambda>b. if b = 1 then Some 0 else None),
              ws_completeOpt = ''menu,preview'', env_pumevent = True, env_floating = True,
              env_isVim = False, is_test = False, now = 1000, out = []\<rparr>"

definition collab0 :: collab where
  \<comment> \<open>collaborators for the examples; the examples that reach \<open>byteSlice\<close> are ASCII, where
      byte and character offsets coincide\<close>
  "collab0 = \<lparr>byteSlice = js_slice, util_isWord = lower_word,
               isTriggerCharacter = (\<lambda>s. s = ''.''), characterIndex = (\<lambda>s i. i),
               sources_shouldTrigger = (\<lambda>p ft. js_endsWith p ''.''),
               sources_shouldCommit = (\<lambda>it ch. it \<noteq> None \<and> ch = ''.''),
               sources_getCompleteSources = (\<lambda>opt t. [''around'']),
               sources_getSource = (\<lambda>nm. None),
               filterResults = (\<lambda>c s. Some (filter (\<lambda>it. take (length s) (word_text it) = s)
                                               (concat (the_default [] (results c)))))\<rparr>"

definition quiet :: "'a \<Rightarrow> 'a await" where
  \<comment> \<open>an awaited call during which nothing else happens\<close>
  "quiet x = \<lparr>step = (\<lambda>w. w), answer = Inr x\<rparr>"

definition resume_env0 :: resume_env where
  "resume_env0 = \<lparr>r_patchChange = quiet (), r_wait = (\<lambda>w. w),
                   r_completeInComplete = quiet (Some [item0 ''foo''])\<rparr>"

definition stop_events :: "world \<Rightarrow> ref \<Rightarrow> event list" where
  \<comment> \<open>the calls of one \<open>stop()\<close> on an active controller whose document is \<open>d\<close>, in order\<close>
  "stop_events w d =
     (case resolveTokenSource w of None \<Rightarrow> [] | Some t \<Rightarrow> [TokenCancel t])
     @ (if floating w then [FloatingClose] else [])
     @ [DocFireContentChanges d]
     @ (case complete w of None \<Rightarrow> [] | Some c \<Rightarrow> [CompleteCancel c])
     @ (if numberSelect (config w) then [Coc_unmap] else [])
     @ [Coc_hide]
     @ (if keepCompleteopt (config w) then [] else [SetCompleteopt (ws_completeOpt w)])"

definition quiet_pum :: pumRedraw_env where
  "quiet_pum = \<lparr>pr_resolve = quiet (item0 ''food''), pr_createNewBuffer = quiet 9,
                 pr_buftype = quiet (), pr_bufhidden = quiet (), pr_createNameSpace = quiet 1,
                 pr_wait = (\<lambda>w. w), pr_show = quiet ()\<rparr>"

definition doComplete_env0 :: doComplete_env where
  "doComplete_env0 = \<lparr>dc_doComplete = quiet [item0 ''foo''], dc_getcurpos = quiet (1, 3),
                       dc_resume = resume_env0\<rparr>"

definition textChangedI_env0 :: textChangedI_env where
  "textChangedI_env0 = \<lparr>ti_patchChange = quiet (), ti_getcurpos = quiet (1, 4),
                         ti_get_complete_option = quiet opt0, ti_setline = quiet (),
                         ti_cursor = quiet (), ti_start = doComplete_env0,
                         ti_resume = resume_env0\<rparr>"

definition completeDone_env0 :: completeDone_env where
  "completeDone_env0 = \<lparr>cd_resolve = quiet (item0 ''foo''), cd_wait = (\<lambda>w. w),
                         cd_mode = quiet ''i'', cd_patchChange = quiet (),
                         cd_getcurpos = quiet (1, 4), cd_doCompleteDone = quiet ()\<rparr>"

definition pum_steps_keep :: "pumRedraw_env \<Rightarrow> bool" where
  \<comment> \<open>what runs during the suspensions of \<open>onPumRedraw\<close> keeps the selection invariant\<close>
  "pum_steps_keep E =
     (\<forall>w. sel_inv w \<longrightarrow>
        sel_inv (step (pr_resolve E) w) \<and> sel_inv (step (pr_createNewBuffer E) w) \<and>
        sel_inv (step (pr_buftype E) w) \<and> sel_inv (step (pr_bufhidden E) w) \<and>
        sel_inv (step (pr_createNameSpace E) w) \<and> sel_inv (pr_wait E w) \<and>
        sel_inv (step (pr_show E) w))"

definition world_incomplete :: world where
  \<comment> \<open>\<open>world0\<close> with an aggregator that is flagged incomplete\<close>
  "world_incomplete = world0\<lparr>completes := (\<lambda>_. cmpl0\<lparr>isIncomplete := True\<rparr>)\<rparr>"

definition resume_env_moved :: resume_env where
  \<comment> \<open>the buffer changes during the settle delay\<close>
  "resume_env_moved =
     resume_env0\<lparr>r_wait := (\<lambda>w. w\<lparr>docs := (\<lambda>_. doc0\<lparr>changedtick := 8\<rparr>)\<rparr>)\<rparr>"

definition world_commit :: world where
  \<comment> \<open>\<open>world0\<close> with commit characters enabled, \<open>foo\<close> selected and a dot typed 10ms ago\<close>
  "world_commit =
     world0\<lparr>config := cfg0\<lparr>acceptSuggestionOnCommitCharacter := True\<rparr>,
            lastInsert := Some \<lparr>character = ''.'', timestamp = 990\<rparr>, currIndex := 1\<rparr>"

definition hook_free :: "ref \<Rightarrow> event list \<Rightarrow> bool" where
  \<comment> \<open>neither the accept hook of the registry nor the re-sync of the document \<open>d\<close> is among
      the calls\<close>
  "hook_free d evs =
     ((\<forall>i p. SourcesCompleteDone i p \<notin> set evs) \<and> DocForceSync d False \<notin> set evs)"

definition world_accepted :: world where
  \<comment> \<open>\<open>world0\<close> when the host has inserted \<open>foo\<close>\<close>
  "world_accepted = world0\<lparr>docs := (\<lambda>_. doc0\<lparr>getline := (\<lambda>n. ''foo'')\<rparr>)\<rparr>"

definition completeDone_env_left :: completeDone_env where
  \<comment> \<open>the user leaves insert mode at time 1020 while the item is resolved until 1080\<close>
  "completeDone_env_left =
     completeDone_env0\<lparr>
       cd_resolve := \<lparr>step = (\<lambda>w. (snd (onInsertLeave 1 (w\<lparr>now := 1020\<rparr>)))\<lparr>now := 1080\<rparr>),
                      answer = Inr (item0 ''foo'')\<rparr>,
       cd_mode := quiet ''n''\<rparr>"

definition world_idle :: world where
  \<comment> \<open>no session: the state before a trigger on the line \<open>fo\<close>\<close>
  "world_idle = world0\<lparr>completeItems := [], activted := False, input := None,
                         complete := None, docs := (\<lambda>_. doc0\<lparr>paused := False\<rparr>)\<rparr>"

definition doComplete_env_fail :: doComplete_env where
  \<comment> \<open>the fetch of the aggregator rejects\<close>
  "doComplete_env_fail =
     doComplete_env0\<lparr>dc_doComplete := \<lparr>step = (\<lambda>w. w), answer = Inl (Error ''boom'' ''at fetch'')\<rparr>\<rparr>"




definition world_selected :: world where
  \<comment> \<open>\<open>world0\<close> after the popup has redrawn with \<open>food\<close> selected\<close>
  "world_selected = snd (onPumRedraw quiet_pum (item0 ''food'') (0, 0, 0, 0) world0)"

definition world_stopped :: world where
  "world_stopped = snd (stop world_selected)"

definition opt_other_buffer :: CompleteOption where
  \<comment> \<open>a trigger context in a buffer that has no document\<close>
  "opt_other_buffer = opt0\<lparr>opt_bufnr := 9\<rparr>"

definition opt_no_provider :: CompleteOption where
  \<comment> \<open>a trigger context, with input \<open>f\<close>, for a provider that does not exist\<close>
  "opt_no_provider = opt0\<lparr>source := Some ''nosuch'', opt_input := ''f''\<rparr>"

definition opt_accent :: CompleteOption where
  \<comment> \<open>the trigger context of the input \<open>fo\<close> on a line of three characters, an accented e
      (code point 233, two bytes in UTF-8) and then \<open>fo\<close>: the input starts at byte column 2
      and the cursor is at byte column 5, one-based\<close>
  "opt_accent = opt0\<lparr>line := CHR 0xE9 # ''fo'', col := 2, colnr := 5\<rparr>"

definition world_accent :: world where
  \<comment> \<open>\<open>world_commit\<close> on that line\<close>
  "world_accent = world_commit\<lparr>completes := (\<lambda>_. cmpl0\<lparr>c_option := opt_accent\<rparr>)\<rparr>"

definition pum_env_race :: pumRedraw_env where
  \<comment> \<open>the resolved item has documentation, and while its preview is being shown a second
      redraw, for \<open>fox\<close>, runs until it suspends in its own resolve\<close>
  "pum_env_race =
     quiet_pum\<lparr>pr_resolve := quiet ((item0 ''foo'')\<lparr>info := Some ''doc''\<rparr>),
               pr_show := \<lparr>step = pum_suspended (item0 ''fox''), answer = Inr ()\<rparr>\<rparr>"

definition world_raced :: world where
  \<comment> \<open>\<open>world0\<close> when the first redraw, for \<open>foo\<close>, has ended\<close>
  "world_raced = snd (onPumRedraw pum_env_race (item0 ''foo'') (0, 0, 0, 0) world0)"

definition world_stale_mark :: world where
  \<comment> \<open>\<open>world0\<close> at time 1000 with a mark that was recorded at time 0\<close>
  "world_stale_mark = world0\<lparr>lastInsert := Some \<lparr>character = ''o'', timestamp = 0\<rparr>\<rparr>"

definition textChangedP_env0 :: textChangedP_env where
  "textChangedP_env0 = \<lparr>tp_patchChange = quiet (), tp_col = quiet 3, tp_resume = resume_env0\<rparr>"

definition accent_commit :: "(error + unit) \<times> world" where
  \<comment> \<open>the dot is typed in \<open>world_accent\<close>\<close>
  "accent_commit = onTextChangedI collab0 textChangedI_env0 1 world_accent"

section \<open>Properties\<close>

subsection \<open>Traces and the normal form of \<open>stop\<close>\<close>

lemma out_emit [simp]: "out (emit e w) = out w @ [e]"
  by (simp add: emit_def)

lemma out_yield [simp]: "out (yield f w) = out w"
  by (simp add: yield_def)

lemma new_events_self [simp]: "new_events w w = []"
  by (simp add: new_events_def)

lemma cancelResolve_nf:
  "cancelResolve w =
     w\<lparr>resolveTokenSource := None,
       tokens := (case resolveTokenSource w of None \<Rightarrow> tokens w | Some t \<Rightarrow> (tokens w)(t := True)),
       out := out w @ (case resolveTokenSource w of None \<Rightarrow> [] | Some t \<Rightarrow> [TokenCancel t])\<rparr>"
  by (cases "resolveTokenSource w") (simp_all add: cancelResolve_def emit_def)

lemma closePreviewWindow_nf:
  "closePreviewWindow w =
     w\<lparr>floating := False, out := out w @ (if floating w then [FloatingClose] else [])\<rparr>"
  by (cases "floating w") (simp_all add: closePreviewWindow_def emit_def)

lemma if_emit: "(if b then emit e w else w) = w\<lparr>out := out w @ (if b then [e] else [])\<rparr>"
  by (simp add: emit_def)

lemma discard_nf:
  "(case complete w of None \<Rightarrow> w | Some c \<Rightarrow> (complete_cancel c w)\<lparr>complete := None\<rparr>) =
     w\<lparr>complete := None,
       completes := (case complete w of None \<Rightarrow> completes w
                     | Some c \<Rightarrow> (completes w)(c := (completes w c)\<lparr>isCanceled := True\<rparr>)),
       out := out w @ (case complete w of None \<Rightarrow> [] | Some c \<Rightarrow> [CompleteCancel c])\<rparr>"
  by (cases "complete w") (simp_all add: complete_cancel_def emit_def)

lemma stop_idle: "\<not> activted w \<Longrightarrow> stop w = (Inr (), w)"
  by (simp add: stop_def)

lemma stop_nf:
  assumes "activted w" "document w = Some d"
  shows "stop w =
     (Inr (), w\<lparr>resolveTokenSource := None,
       tokens := (case resolveTokenSource w of None \<Rightarrow> tokens w | Some t \<Rightarrow> (tokens w)(t := True)),
       floating := False, activted := False,
       docs := (docs w)(d := (docs w d)\<lparr>paused := False\<rparr>),
       completeItems := [],
       complete := None,
       completes := (case complete w of None \<Rightarrow> completes w
                     | Some c \<Rightarrow> (completes w)(c := (completes w c)\<lparr>isCanceled := True\<rparr>)),
       out := out w @ stop_events w d\<rparr>)"
  using assms
  by (simp add: stop_def Let_def cancelResolve_nf closePreviewWindow_nf if_emit discard_nf
      stop_events_def emit_def cong: option.case_cong if_cong)

lemma stop_no_document:
  assumes "activted w" "document w = None"
  shows "stop w = (Inl TypeError, (closePreviewWindow (cancelResolve w))\<lparr>activted := False\<rparr>)"
  using assms by (simp add: stop_def Let_def cancelResolve_nf closePreviewWindow_nf)

lemma stop_inactive: "\<not> activted (snd (stop w))"
proof (cases "activted w")
  case False
  then show ?thesis by (simp add: stop_idle)
next
  case True
  then show ?thesis
    by (cases "document w") (simp_all add: stop_nf stop_no_document)
qed

lemma stop_currIndex: "currIndex (snd (stop w)) = currIndex w"
proof (cases "activted w")
  case False
  then show ?thesis by (simp add: stop_idle)
next
  case True
  then show ?thesis
    by (cases "document w")
      (simp_all add: stop_nf stop_no_document cancelResolve_nf closePreviewWindow_nf)
qed


lemma stop_events_hide: "Coc_hide \<in> set (stop_events w d)"
  by (simp add: stop_events_def)

subsection \<open>The loop of \<open>getInput\<close>\<close>

lemma getInput_loop_drop:
  "n < length pre \<Longrightarrow>
   getInput_loop isW pre n =
     drop (n - length (takeWhile (\<lambda>c. isW [c]) (rev (take n pre)))) pre"
proof (induction n)
  case 0
  then show ?case by (simp add: js_slice_def js_index_def)
next
  case (Suc n)
  then have n: "n < length pre" by simp
  have r: "rev (take (Suc n) pre) = pre ! n # rev (take n pre)"
    using n by (simp add: take_Suc_conv_app_nth)
  show ?case
  proof (cases "isW [pre ! n]")
    case True
    have "length (takeWhile (\<lambda>c. isW [c]) (rev (take n pre))) \<le> n"
      using length_takeWhile_le [of "\<lambda>c. isW [c]" "rev (take n pre)"] n by simp
    then show ?thesis using Suc.IH [OF n] True r by simp
  next
    case False
    have "nat (1 + int n) = Suc n" by simp
    then show ?thesis using False r Suc.prems by (simp add: js_slice_def js_index_def)
  qed
qed

lemma getInput_length:
  assumes "pre \<noteq> []" "isWord doc [last pre]"
  shows "length (getInput doc pre) = trailing_word_run doc pre"
proof -
  obtain ys y where p: "pre = ys @ [y]" using assms(1) by (metis rev_exhaust)
  have w: "isWord doc [y]" using assms(2) p by simp
  have k: "length (takeWhile (\<lambda>c. isWord doc [c]) (rev ys)) \<le> length ys"
    using length_takeWhile_le [of _ "rev ys"] by simp
  have "getInput doc pre = drop (length ys - length (takeWhile (\<lambda>c. isWord doc [c]) (rev ys))) pre"
    using getInput_loop_drop [of "length ys" pre "isWord doc"] p by (simp add: getInput_def)
  then show ?thesis using p w k by (simp add: trailing_word_run_def)
qed

lemma js_slice_from_last: "p \<noteq> [] \<Longrightarrow> js_slice_from p (- 1) = [last p]"
  by (cases p rule: rev_cases) (simp_all add: js_slice_from_def js_index_def)

lemmas ex_defs = world0_def collab0_def cfg0_def doc0_def opt0_def cmpl0_def item0_def
  resume_env0_def quiet_def

subsection \<open>C1: a stale search string ends the session\<close>




subsection \<open>C3: the trigger policy\<close>

text \<open>
  C3 (as amended). \<open>shouldTrigger\<close> returns false for a null, empty or blank preceding text
  and, before it asks the providers, whenever the auto-trigger mode is \<open>none\<close>. In every other
  mode it returns true whenever a provider's trigger-character table matches the preceding
  text for the document's file type; when no provider matches, it returns true exactly in
  \<open>always\<close> mode with a last character that is a word character and a trailing run of word
  characters of at least the configured minimum length.
\<close>

theorem shouldTrigger_policy:
  "shouldTrigger D w doc pre =
     (\<exists>p. pre = Some p \<and> p \<noteq> [] \<and> js_trim p \<noteq> [] \<and> autoTrigger (config w) \<noteq> ''none'' \<and>
        (sources_shouldTrigger D p (filetype doc) \<or>
         autoTrigger (config w) = ''always'' \<and> isWord doc [last p] \<and>
           minTriggerInputLength (config w) \<le> int (trailing_word_run doc p)))"
proof (cases pre)
  case None
  then show ?thesis by (simp add: shouldTrigger_def)
next
  case (Some p)
  show ?thesis
  proof (cases "p = []")
    case True
    then show ?thesis using Some by (simp add: shouldTrigger_def)
  next
    case False
    have run: "isWord doc [last p] \<Longrightarrow> 1 \<le> trailing_word_run doc p"
      using False by (cases p rule: rev_cases) (simp_all add: trailing_word_run_def)
    show ?thesis
      using Some False run getInput_length [OF False]
      by (auto simp add: shouldTrigger_def js_slice_from_last)
  qed
qed

theorem shouldTrigger_policy_witness:
  "shouldTrigger collab0 world0 doc0 (Some ''fo'') \<and> trailing_word_run doc0 ''fo'' = 2 \<and>
   \<not> sources_shouldTrigger collab0 ''fo'' (filetype doc0)"
  using shouldTrigger_policy [of collab0 world0 doc0 "Some ''fo''"]
  by (simp add: ex_defs trailing_word_run_def lower_word_def js_trim_def js_whitespace_def
      js_endsWith_def)

text \<open>In mode \<open>none\<close> a matching provider does not trigger.\<close>

theorem shouldTrigger_none_counterexample:
  "sources_shouldTrigger collab0 ''fo.'' (filetype doc0) \<and>
   \<not> shouldTrigger collab0 (world0\<lparr>config := cfg0\<lparr>autoTrigger := ''none''\<rparr>\<rparr>) doc0 (Some ''fo.'')"
  by (simp add: ex_defs shouldTrigger_def js_trim_def js_whitespace_def js_endsWith_def)

subsection \<open>What \<open>stop\<close> does\<close>

text \<open>
  \<open>stop()\<close> is idempotent: a call on a stopped controller changes nothing, and a second
  call after any first one changes nothing. One call on an active controller (with its
  document) cancels the token source that \<open>resolveTokenSource\<close> holds, whose token then
  reports canceled, closes the preview, releases the paused flag of the document, clears the
  candidate list, cancels and discards the aggregator and emits the hide-popup command.
\<close>

lemma stop_idempotent_and_effects:
  "snd (stop (snd (stop w))) = snd (stop w) \<and>
   (\<not> activted w \<longrightarrow> stop w = (Inr (), w)) \<and>
   (activted w \<longrightarrow> document w = Some d \<longrightarrow>
      (let w' = snd (stop w)
       in fst (stop w) = Inr () \<and> \<not> activted w' \<and>
          (\<forall>t. resolveTokenSource w = Some t \<longrightarrow>
                 tokens w' t \<and> TokenCancel t \<in> set (new_events w w')) \<and>
          resolveTokenSource w' = None \<and>
          \<not> floating w' \<and> (floating w \<longrightarrow> FloatingClose \<in> set (new_events w w')) \<and>
          \<not> paused (docs w' d) \<and>
          completeItems w' = [] \<and>
          complete w' = None \<and>
          (\<forall>c. complete w = Some c \<longrightarrow>
                 isCanceled (completes w' c) \<and> CompleteCancel c \<in> set (new_events w w')) \<and>
          Coc_hide \<in> set (new_events w w')))"
proof (intro conjI impI)
  show "snd (stop (snd (stop w))) = snd (stop w)"
    using stop_idle [OF stop_inactive [of w]] by simp
next
  assume "\<not> activted w"
  then show "stop w = (Inr (), w)" by (rule stop_idle)
next
  assume a: "activted w" and d: "document w = Some d"
  show "let w' = snd (stop w)
       in fst (stop w) = Inr () \<and> \<not> activted w' \<and>
          (\<forall>t. resolveTokenSource w = Some t \<longrightarrow>
                 tokens w' t \<and> TokenCancel t \<in> set (new_events w w')) \<and>
          resolveTokenSource w' = None \<and>
          \<not> floating w' \<and> (floating w \<longrightarrow> FloatingClose \<in> set (new_events w w')) \<and>
          \<not> paused (docs w' d) \<and>
          completeItems w' = [] \<and>
          complete w' = None \<and>
          (\<forall>c. complete w = Some c \<longrightarrow>
                 isCanceled (completes w' c) \<and> CompleteCancel c \<in> set (new_events w w')) \<and>
          Coc_hide \<in> set (new_events w w')"
    by (simp add: stop_nf [OF a d] new_events_def stop_events_def)
qed

text \<open>An active session with a token source recorded and the preview open.\<close>

lemma stop_idempotent_and_effects_example:
  "(let w = world0\<lparr>resolveTokenSource := Some 5, floating := True\<rparr>; w' = snd (stop w)
    in activted w \<and> document w = Some 0 \<and> paused (docs w 0) \<and>
       stop w' = (Inr (), w') \<and> \<not> activted w' \<and> tokens w' 5 \<and> \<not> floating w' \<and>
       \<not> paused (docs w' 0) \<and> completeItems w' = [] \<and> complete w' = None \<and>
       isCanceled (completes w' 1) \<and>
       new_events w w' = [TokenCancel 5, FloatingClose, DocFireContentChanges 0,
                          CompleteCancel 1, Coc_hide, SetCompleteopt ''menu,preview''])"
proof -
  let ?w = "world0\<lparr>resolveTokenSource := Some 5, floating := True\<rparr>"
  have a: "activted ?w" and d: "document ?w = Some 0" and c: "complete ?w = Some 1"
    and t: "resolveTokenSource ?w = Some 5" and f: "floating ?w" and p: "paused (docs ?w 0)"
    by (simp_all add: ex_defs)
  have e: "new_events ?w (snd (stop ?w)) =
      [TokenCancel 5, FloatingClose, DocFireContentChanges 0, CompleteCancel 1, Coc_hide,
       SetCompleteopt ''menu,preview'']"
    by (simp add: stop_nf [OF a d] new_events_def stop_events_def) (simp add: ex_defs)
  show ?thesis
    using stop_idempotent_and_effects [of ?w 0] a d c t f p e stop_idle [OF stop_inactive [of ?w]]
    by (simp add: Let_def)
qed

subsection \<open>C10: the same search again\<close>

text \<open>
  C10. \<open>resumeCompletion\<close> with a search equal to the recorded input leaves the world as it
  is: the session stays as it was, the candidate list and the popup are untouched and no call
  is made (no provider call, no filter, no stop). On a stopped controller, and on an active
  one that holds its aggregator, it returns normally.
\<close>

theorem resume_same_input_noop:
  "search = input w \<Longrightarrow>
   snd (resumeCompletion D E search w) = w \<and>
   (\<not> activted w \<or> complete w \<noteq> None \<longrightarrow> resumeCompletion D E search w = (Inr (), w))"
  by (auto simp add: resumeCompletion_def split: option.splits)

theorem resume_same_input_noop_witness:
  "Some ''fo'' = input world0 \<and> activted world0 \<and> complete world0 \<noteq> None \<and>
   resumeCompletion collab0 resume_env0 (Some ''fo'') world0 = (Inr (), world0)"
proof -
  have h: "Some ''fo'' = input world0" and a: "complete world0 \<noteq> None" "activted world0"
    by (simp_all add: world0_def)
  show ?thesis using resume_same_input_noop [OF h, of collab0 resume_env0] h a by simp
qed

subsection \<open>C2: the re-query of an incomplete aggregator\<close>

lemma resume_settle_cases:
  "(\<exists>e w4. resume_settle E d w = (Inl e, w4) \<and> out w4 = out w @ [DocPatchChange d]) \<or>
   (\<exists>w4. resume_settle E d w = (Inr (), w4) \<and>
          out w4 = out w @ [DocPatchChange d, DocForceSync d False, Wait 30])"
  by (cases "answer (r_patchChange E)")
    (simp_all add: resume_settle_def andThen_def await_def)

lemma resume_requery_out:
  "resume_requery E c s w = (x, w5) \<Longrightarrow> out w5 = out w @ [CompleteInComplete c s]"
  by (auto simp add: resume_requery_def await_def)

lemma resume_incomplete_entry:
  assumes "activted w" and "complete w = Some c" and "results (completes w c) \<noteq> None"
    and "Some s \<noteq> input w" and "\<not> js_endsWith s '' ''"
    and "length (c_input (completes w c)) \<le> length s"
    and "document w = Some d" and "isIncomplete (completes w c)"
  shows "resumeCompletion D E (Some s) w =
         resume_incomplete E c d s (changedtick (docs w d)) (w\<lparr>input := Some s\<rparr>)"
  using assms by (auto simp add: resumeCompletion_def Let_def)

text \<open>
  C2. On an active session whose aggregator is flagged incomplete, for a search that passes
  the guards of \<open>resumeCompletion\<close>: with \<open>tick\<close> the \<open>changedtick\<close> of the document read
  before the first suspension, if the \<open>changedtick\<close> read after the settle delay differs
  from \<open>tick\<close> the call ends there, having made no re-query and shown nothing; if the one read
  after the re-query differs, the call ends there and the answer is dropped; and a
  show-candidates command is among the calls of this invocation only if both reads equal
  \<open>tick\<close>, in which case the answer is applied by the common end of the method.
\<close>

theorem resume_incomplete_changedtick:
  assumes "activted w" and "complete w = Some c" and "results (completes w c) \<noteq> None"
    and "Some s \<noteq> input w" and "\<not> js_endsWith s '' ''"
    and "length (c_input (completes w c)) \<le> length s"
    and "document w = Some d" and "isIncomplete (completes w c)"
  shows
    "let tick = changedtick (docs w d); w1 = w\<lparr>input := Some s\<rparr>;
         r = resumeCompletion D E (Some s) w
     in (\<forall>w4. resume_settle E d w1 = (Inr (), w4) \<and> changedtick (docs w4 d) \<noteq> tick \<longrightarrow>
              r = (Inr (), w4) \<and>
              new_events w w4 = [DocPatchChange d, DocForceSync d False, Wait 30]) \<and>
        (\<forall>w4 items w5.
           resume_settle E d w1 = (Inr (), w4) \<and> changedtick (docs w4 d) = tick \<and>
           resume_requery E c s w4 = (Inr items, w5) \<and> changedtick (docs w5 d) \<noteq> tick \<longrightarrow>
              r = (Inr (), w5) \<and>
              new_events w w5 = [DocPatchChange d, DocForceSync d False, Wait 30,
                                 CompleteInComplete c s]) \<and>
        (\<forall>cl xs. Coc_do_complete cl xs \<in> set (new_events w (snd r)) \<longrightarrow>
           (\<exists>w4 items w5.
              resume_settle E d w1 = (Inr (), w4) \<and> changedtick (docs w4 d) = tick \<and>
              resume_requery E c s w4 = (Inr items, w5) \<and> changedtick (docs w5 d) = tick \<and>
              r = resume_show items w5))"
proof -
  let ?tick = "changedtick (docs w d)"
  let ?w1 = "w\<lparr>input := Some s\<rparr>"
  let ?r = "resumeCompletion D E (Some s) w"
  have r: "?r = resume_incomplete E c d s ?tick ?w1"
    using assms by (rule resume_incomplete_entry)
  have a: "r' = (Inr (), w4) \<and> new_events w w4 = [DocPatchChange d, DocForceSync d False, Wait 30]"
    if "resume_settle E d ?w1 = (Inr (), w4)" "changedtick (docs w4 d) \<noteq> ?tick" "r' = ?r"
    for w4 r'
    using that r resume_settle_cases [of E d ?w1]
    by (auto simp add: resume_incomplete_def andThen_def new_events_def)
  have b: "r' = (Inr (), w5) \<and>
      new_events w w5 = [DocPatchChange d, DocForceSync d False, Wait 30, CompleteInComplete c s]"
    if "resume_settle E d ?w1 = (Inr (), w4)" "changedtick (docs w4 d) = ?tick"
      "resume_requery E c s w4 = (Inr items, w5)" "changedtick (docs w5 d) \<noteq> ?tick" "r' = ?r"
    for w4 items w5 r'
    using that r resume_settle_cases [of E d ?w1] resume_requery_out [of E c s w4 "Inr items" w5]
    by (auto simp add: resume_incomplete_def andThen_def new_events_def)
  have c: "\<exists>w4 items w5.
        resume_settle E d ?w1 = (Inr (), w4) \<and> changedtick (docs w4 d) = ?tick \<and>
        resume_requery E c s w4 = (Inr items, w5) \<and> changedtick (docs w5 d) = ?tick \<and>
        ?r = resume_show items w5"
    if shown: "Coc_do_complete cl xs \<in> set (new_events w (snd ?r))" for cl xs
  proof -
    from resume_settle_cases [of E d ?w1]
    consider (rejected) e w4 where "resume_settle E d ?w1 = (Inl e, w4)"
        "out w4 = out ?w1 @ [DocPatchChange d]"
      | (settled) w4 where "resume_settle E d ?w1 = (Inr (), w4)"
        "out w4 = out ?w1 @ [DocPatchChange d, DocForceSync d False, Wait 30]"
      by blast
    then show ?thesis
    proof cases
      case rejected
      then have "new_events w (snd ?r) = [DocPatchChange d]"
        using r by (simp add: resume_incomplete_def andThen_def new_events_def)
      then show ?thesis using shown by simp
    next
      case settled
      show ?thesis
      proof (cases "changedtick (docs w4 d) = ?tick")
        case False
        then have "new_events w (snd ?r) = [DocPatchChange d, DocForceSync d False, Wait 30]"
          using r settled by (simp add: resume_incomplete_def andThen_def new_events_def)
        then show ?thesis using shown by simp
      next
        case tick4: True
        obtain x w5 where q: "resume_requery E c s w4 = (x, w5)" by (cases "resume_requery E c s w4")
        have o5: "out w5 = out w @ [DocPatchChange d, DocForceSync d False, Wait 30,
            CompleteInComplete c s]"
          using resume_requery_out [OF q] settled(2) by simp
        show ?thesis
        proof (cases x)
          case (Inl e)
          then have "new_events w (snd ?r) =
              [DocPatchChange d, DocForceSync d False, Wait 30, CompleteInComplete c s]"
            using r settled(1) tick4 q o5
            by (simp add: resume_incomplete_def andThen_def new_events_def)
          then show ?thesis using shown by simp
        next
          case (Inr items)
          show ?thesis
          proof (cases "changedtick (docs w5 d) = ?tick")
            case False
            then have "new_events w (snd ?r) =
                [DocPatchChange d, DocForceSync d False, Wait 30, CompleteInComplete c s]"
              using r settled(1) tick4 q o5 Inr
              by (simp add: resume_incomplete_def andThen_def new_events_def)
            then show ?thesis using shown by simp
          next
            case True
            then have "?r = resume_show items w5"
              using r settled(1) tick4 q Inr by (simp add: resume_incomplete_def andThen_def)
            then show ?thesis using settled(1) tick4 q Inr True by blast
          qed
        qed
      qed
    qed
  qed
  show ?thesis unfolding Let_def using a b c by blast
qed

lemmas resume_defs = resume_settle_def resume_requery_def resume_show_def showCompletion_def
  appendNumber_def option_of_def isActivted_def await_def andThen_def yield_def emit_def
  Let_def

text \<open>
  The search \<open>foo\<close> on an incomplete aggregator: when the buffer moves during the settle
  delay nothing is queried or shown; when nothing moves the answer of the providers is shown.
\<close>

theorem resume_incomplete_changedtick_witness:
  "(let r = resumeCompletion collab0 resume_env_moved (Some ''foo'') world_incomplete
    in fst r = Inr () \<and>
       new_events world_incomplete (snd r) = [DocPatchChange 0, DocForceSync 0 False, Wait 30] \<and>
       completeItems (snd r) = completeItems world_incomplete) \<and>
   (let r = resumeCompletion collab0 resume_env0 (Some ''foo'') world_incomplete
    in Coc_do_complete 0 [item0 ''foo''] \<in> set (new_events world_incomplete (snd r)) \<and>
       (\<exists>w4 items w5.
          resume_settle resume_env0 0 (world_incomplete\<lparr>input := Some ''foo''\<rparr>) = (Inr (), w4) \<and>
          changedtick (docs w4 0) = changedtick (docs world_incomplete 0) \<and>
          resume_requery resume_env0 1 ''foo'' w4 = (Inr items, w5) \<and>
          changedtick (docs w5 0) = changedtick (docs world_incomplete 0)))"
proof -
  let ?w = world_incomplete
  have h: "activted ?w" "complete ?w = Some 1" "results (completes ?w 1) \<noteq> None"
    "Some ''foo'' \<noteq> input ?w" "\<not> js_endsWith ''foo'' '' ''"
    "length (c_input (completes ?w 1)) \<le> length ''foo''"
    "document ?w = Some 0" "isIncomplete (completes ?w 1)"
    by (simp_all add: world_incomplete_def ex_defs js_endsWith_def c_input_def)
  note moved = resume_incomplete_changedtick [OF h, of collab0 resume_env_moved, unfolded Let_def]
  note calm = resume_incomplete_changedtick [OF h, of collab0 resume_env0, unfolded Let_def]
  obtain w4 where s: "resume_settle resume_env_moved 0 (?w\<lparr>input := Some ''foo''\<rparr>) = (Inr (), w4)"
    and t: "changedtick (docs w4 0) \<noteq> changedtick (docs ?w 0)"
    and i: "completeItems w4 = completeItems ?w"
    by (simp add: resume_defs resume_env_moved_def world_incomplete_def ex_defs)
  have m: "resumeCompletion collab0 resume_env_moved (Some ''foo'') ?w = (Inr (), w4) \<and>
      new_events ?w w4 = [DocPatchChange 0, DocForceSync 0 False, Wait 30]"
    using moved s t by blast
  have shown: "Coc_do_complete 0 [item0 ''foo'']
      \<in> set (new_events ?w (snd (resumeCompletion collab0 resume_env0 (Some ''foo'') ?w)))"
    unfolding resume_incomplete_entry [OF h]
    by (simp add: resume_incomplete_def resume_defs world_incomplete_def ex_defs new_events_def)
  have "\<exists>w4 items w5.
          resume_settle resume_env0 0 (?w\<lparr>input := Some ''foo''\<rparr>) = (Inr (), w4) \<and>
          changedtick (docs w4 0) = changedtick (docs ?w 0) \<and>
          resume_requery resume_env0 1 ''foo'' w4 = (Inr items, w5) \<and>
          changedtick (docs w5 0) = changedtick (docs ?w 0)"
    using calm shown by blast
  then show ?thesis using m i shown by (simp add: Let_def)
qed

subsection \<open>C5: the selection index\<close>

lemma sel_inv_emit [simp]: "sel_inv (emit e w) = sel_inv w"
  by (simp add: sel_inv_def emit_def)

lemma sel_inv_yield [simp]: "sel_inv (yield f w) = sel_inv (f w)"
  by (simp add: sel_inv_def yield_def)

lemma sel_inv_closePreviewWindow [simp]: "sel_inv (closePreviewWindow w) = sel_inv w"
  by (simp add: sel_inv_def closePreviewWindow_nf)

lemma sel_inv_cancelResolve [simp]: "sel_inv (cancelResolve w) = sel_inv w"
  by (simp add: sel_inv_def cancelResolve_nf)

lemma sel_inv_new_token [simp]: "sel_inv (snd (new_token w)) = sel_inv w"
  by (simp add: sel_inv_def new_token_def)

lemma sel_inv_updates [simp]:
  "sel_inv (w\<lparr>resolveTokenSource := t\<rparr>) = sel_inv w"
  "sel_inv (w\<lparr>floating := f\<rparr>) = sel_inv w"
  "sel_inv (w\<lparr>previewBuffer := b\<rparr>) = sel_inv w"
  by (simp_all add: sel_inv_def)

lemma andThen_keeps:
  assumes "P w" and "\<And>w. P w \<Longrightarrow> P (snd (m w))" and "\<And>x w. P w \<Longrightarrow> P (snd (f x w))"
  shows "P (snd (andThen m f w))"
proof (cases "m w")
  case (Pair x w')
  then have "P w'" using assms(1) assms(2) [of w] by simp
  then show ?thesis using Pair assms(3) by (cases x) (simp_all add: andThen_def)
qed

lemma await_keeps_sel_inv:
  "sel_inv w \<Longrightarrow> \<forall>w. sel_inv w \<longrightarrow> sel_inv (step a w) \<Longrightarrow> sel_inv (snd (await ev a w))"
  by (simp add: await_def)

lemma createPreviewBuffer_keeps_sel_inv:
  assumes "pum_steps_keep E" and s: "sel_inv w"
  shows "sel_inv (snd (createPreviewBuffer E w))"
  unfolding createPreviewBuffer_def
proof (rule andThen_keeps [where P = sel_inv, OF s])
  fix w assume "sel_inv w"
  then show "sel_inv (snd (await CreateBuffer (pr_createNewBuffer E) w))"
    using assms(1) by (simp add: await_keeps_sel_inv pum_steps_keep_def)
next
  fix b w assume "sel_inv w"
  then have s': "sel_inv (w\<lparr>previewBuffer := Some b\<rparr>)" by simp
  show "sel_inv (snd (andThen (await (BufSetOption ''buftype'' ''nofile'') (pr_buftype E))
          (\<lambda>_. await (BufSetOption ''bufhidden'' ''hide'') (pr_bufhidden E))
          (w\<lparr>previewBuffer := Some b\<rparr>)))"
    using assms(1)
    by (intro andThen_keeps [where P = sel_inv, OF s'])
      (simp_all add: await_keeps_sel_inv pum_steps_keep_def)
qed

lemma pum_buffer_keeps_sel_inv:
  "pum_steps_keep E \<Longrightarrow> sel_inv w \<Longrightarrow> sel_inv (snd (pum_buffer E w))"
  by (simp add: pum_buffer_def createPreviewBuffer_keeps_sel_inv)

lemma pum_floating_keeps_sel_inv:
  assumes "pum_steps_keep E" and s: "sel_inv w"
  shows "sel_inv (snd (pum_floating E w))"
proof (cases "floating w")
  case True
  then show ?thesis using s by (simp add: pum_floating_def)
next
  case False
  have "sel_inv (snd (andThen (await (CreateNameSpace ''coc-pum'') (pr_createNameSpace E))
                        (\<lambda>srcId w1. (Inr (), w1\<lparr>floating := True\<rparr>)) w))"
    using assms(1)
    by (intro andThen_keeps [where P = sel_inv, OF s])
      (simp_all add: await_keeps_sel_inv pum_steps_keep_def)
  then show ?thesis using False by (simp add: pum_floating_def)
qed

lemma pum_show_keeps_sel_inv:
  assumes "pum_steps_keep E" and s: "sel_inv w"
  shows "sel_inv (snd (pum_show E t cur w))"
proof -
  let ?w5 = "yield (pr_wait E) (emit (Wait 10) w)"
  have s5: "sel_inv ?w5" using s assms(1) by (simp add: pum_steps_keep_def)
  have "sel_inv (snd (andThen
          (await (FloatingShow (item_content cur) (item_kind cur) (hasDetail cur)) (pr_show E))
          (\<lambda>_ w6. (Inr (), w6\<lparr>resolveTokenSource := None\<rparr>)) ?w5))"
    using assms(1)
    by (intro andThen_keeps [where P = sel_inv, OF s5])
      (simp_all add: await_keeps_sel_inv pum_steps_keep_def)
  then show ?thesis using s5 by (simp add: pum_show_def Let_def)
qed

lemma pum_preview_keeps_sel_inv:
  assumes k: "pum_steps_keep E" and s: "sel_inv w"
  shows "sel_inv (snd (pum_preview E t cur w))"
proof -
  have "sel_inv (snd (andThen (pum_buffer E)
                        (\<lambda>_. andThen (pum_floating E) (\<lambda>_. pum_show E t cur)) w))"
  proof (rule andThen_keeps [where P = sel_inv, OF s])
    fix w assume "sel_inv w"
    then show "sel_inv (snd (pum_buffer E w))" by (rule pum_buffer_keeps_sel_inv [OF k])
  next
    fix x :: unit and w assume s': "sel_inv w"
    show "sel_inv (snd (andThen (pum_floating E) (\<lambda>_. pum_show E t cur) w))"
      by (rule andThen_keeps [where P = sel_inv, OF s'])
        (simp_all add: pum_floating_keeps_sel_inv [OF k] pum_show_keeps_sel_inv [OF k])
  qed
  then show ?thesis using s by (simp add: pum_preview_def)
qed

lemma takeWhile_not_less:
  "\<exists>y \<in> set xs. P y \<Longrightarrow> length (takeWhile (\<lambda>x. \<not> P x) xs) < length xs"
  by (induction xs) auto

lemma indexOf_bound:
  "find (same_item item) xs = Some x \<Longrightarrow> indexOf xs item + 1 \<le> length xs"
proof -
  assume "find (same_item item) xs = Some x"
  then have "\<exists>y \<in> set xs. same_item item y" by (auto simp add: find_Some_iff)
  then have "length (takeWhile (\<lambda>x. \<not> same_item item x) xs) < length xs"
    by (rule takeWhile_not_less)
  then show ?thesis by (simp add: indexOf_def)
qed

lemma pum_select_sel_inv: "sel_inv (pum_select item w)"
  by (auto simp add: pum_select_def sel_inv_def closePreviewWindow_nf dest: indexOf_bound
      split: option.splits)

lemma pum_request_sel_inv: "sel_inv (snd (pum_request item w))"
  using sel_inv_new_token [of "pum_select item w"] pum_select_sel_inv [of item w]
  by (simp add: pum_request_def split_beta Let_def)

text \<open>
  C5 (as amended). After a selection-changed event that passes the guards of \<open>onPumRedraw\<close>
  (floating previews are supported and no insert mark is pending), \<open>currIndex\<close> is within
  \<open>[0, completeItems.length]\<close> when the handler ends, provided what runs during its
  suspensions keeps that bound. When a guard makes the handler return early, the bound holds
  after it if it held before. The operations that replace the candidate list do not write
  \<open>currIndex\<close>: after \<open>stop()\<close> it is what it was before.
\<close>

theorem pumRedraw_selection_bound:
  assumes "pum_steps_keep E" and "env_floating w \<and> lastInsert w = None \<or> sel_inv w"
  shows "sel_inv (snd (onPumRedraw E item bounding w)) \<and>
         currIndex (snd (stop w)) = currIndex w"
proof -
  let ?w = "cancelResolve w"
  have l: "lastInsert ?w = lastInsert w" by (simp add: cancelResolve_nf)
  have "sel_inv (snd (onPumRedraw E item bounding w))"
  proof (cases "env_floating w \<and> lastInsert w = None")
    case False
    then have "sel_inv w" using assms(2) by blast
    then show ?thesis using False l by (auto simp add: onPumRedraw_def Let_def)
  next
    case True
    show ?thesis
    proof (cases "find (same_item item) (completeItems ?w)")
      case None
      then show ?thesis using True l pum_select_sel_inv [of item ?w]
        by (simp add: onPumRedraw_def Let_def)
    next
      case (Some currItem)
      obtain t w2 where nt: "pum_request item ?w = (t, w2)"
        by (cases "pum_request item ?w")
      have s2: "sel_inv w2" using pum_request_sel_inv [of item ?w] nt by simp
      have "sel_inv (snd (andThen (await (SourcesResolve currItem t) (pr_resolve E))
                            (pum_preview E t) w2))"
        using assms(1)
        by (intro andThen_keeps [where P = sel_inv, OF s2])
          (simp_all add: await_keeps_sel_inv pum_preview_keeps_sel_inv pum_steps_keep_def)
      then show ?thesis using True l Some nt by (simp add: onPumRedraw_def Let_def)
    qed
  qed
  then show ?thesis by (simp add: stop_currIndex)
qed

lemmas pum_defs = onPumRedraw_def pum_request_def pum_select_def pum_preview_def item_content_def
  cancelResolve_def closePreviewWindow_def new_token_def await_def andThen_def yield_def
  emit_def same_item_def indexOf_def

theorem pumRedraw_selection_bound_witness:
  "pum_steps_keep quiet_pum \<and> env_floating world0 \<and> lastInsert world0 = None \<and>
   sel_inv (snd (onPumRedraw quiet_pum (item0 ''food'') (0, 0, 0, 0) world0)) \<and>
   currIndex (snd (onPumRedraw quiet_pum (item0 ''food'') (0, 0, 0, 0) world0)) = 2"
proof -
  have k: "pum_steps_keep quiet_pum" by (simp add: pum_steps_keep_def quiet_pum_def quiet_def)
  have g: "env_floating world0 \<and> lastInsert world0 = None" by (simp add: world0_def)
  have i: "currIndex (snd (onPumRedraw quiet_pum (item0 ''food'') (0, 0, 0, 0) world0)) = 2"
    by (simp add: pum_defs ex_defs quiet_pum_def Let_def)
  show ?thesis
    using pumRedraw_selection_bound [OF k disjI1 [OF g], of "item0 ''food''" "(0, 0, 0, 0)"] k g i
    by simp
qed

text \<open>
  Selecting the second of three candidates and then stopping leaves the index 2 on an empty
  candidate list, and a redraw that arrives while an insert mark is pending leaves it so.
\<close>

theorem stop_selection_counterexample:
  "env_floating world0 \<and> lastInsert world0 = None \<and>
   currIndex world_selected = 2 \<and> length (completeItems world_selected) = 3 \<and>
   activted world_selected \<and>
   currIndex world_stopped = 2 \<and> completeItems world_stopped = [] \<and>
   \<not> sel_inv world_stopped \<and>
   \<not> sel_inv (snd (onPumRedraw quiet_pum (item0 ''food'') (0, 0, 0, 0)
                    (world_stopped\<lparr>lastInsert := Some \<lparr>character = ''f'', timestamp = 1000\<rparr>\<rparr>)))"
proof -
  have f: "currIndex world_selected = 2" "length (completeItems world_selected) = 3"
    "activted world_selected" "document world_selected = Some 0" "env_floating world0"
    "lastInsert world0 = None"
    by (simp_all add: world_selected_def pum_defs ex_defs quiet_pum_def Let_def)
  have s: "currIndex world_stopped = 2" "completeItems world_stopped = []"
    "env_floating world_stopped"
    using f by (simp_all add: world_stopped_def stop_currIndex stop_nf [OF f(3,4)])
      (simp add: world_selected_def pum_defs ex_defs quiet_pum_def Let_def)
  have "snd (onPumRedraw quiet_pum (item0 ''food'') (0, 0, 0, 0)
               (world_stopped\<lparr>lastInsert := Some \<lparr>character = ''f'', timestamp = 1000\<rparr>\<rparr>))
        = cancelResolve (world_stopped\<lparr>lastInsert := Some \<lparr>character = ''f'', timestamp = 1000\<rparr>\<rparr>)"
    using s(3) by (simp add: onPumRedraw_def Let_def cancelResolve_nf)
  then show ?thesis using f s by (simp add: sel_inv_def cancelResolve_nf)
qed

subsection \<open>C4: acceptance on a commit character\<close>

lemma await_out: "await ev a w = (x, w') \<Longrightarrow> out w' = out w @ [ev]"
  by (auto simp add: await_def)

lemma await_answer: "answer a = x \<Longrightarrow> await ev a w = (x, yield (step a) (emit ev w))"
  by (simp add: await_def)

lemma andThen_Inr: "m w = (Inr x, w') \<Longrightarrow> andThen m f w = f x w'"
  by (simp add: andThen_def)

lemma andThen_Inl: "m w = (Inl e, w') \<Longrightarrow> andThen m f w = (Inl e, w')"
  by (simp add: andThen_def)

lemma andThen_await:
  "answer a = Inr x \<Longrightarrow> andThen (await ev a) f w = f x (yield (step a) (emit ev w))"
  "answer a = Inl e \<Longrightarrow> andThen (await ev a) f w = (Inl e, yield (step a) (emit ev w))"
  by (simp_all add: andThen_def await_def)

text \<open>
  What \<open>onTextChangedI\<close> does on a commit character, in the offsets of the code. For the
  document of the workspace's buffer and a session that is active on the buffer of the event
  when \<open>patchChange\<close> has answered: when commit-character acceptance is enabled, the latest
  insert is a non-word character, and the registry reports it as a commit character of the
  candidate at \<open>currIndex - 1\<close> (the first one when \<open>currIndex\<close> is 0), which has a word: the
  handler stops the session, sets the line of the trigger context to \<open>line.slice(0, col)\<close>,
  word, commit character and \<open>line.slice(colnr - 1)\<close>, then moves the cursor to the column
  \<open>col + word.length + 2\<close>. The slices and the length count UTF-16 code units. Its calls
  are those of \<open>patchChange\<close>, of \<open>stop\<close>, the line and the cursor; the accept hook of the
  registry is not among them.
\<close>

lemma commit_in_code_units:
  assumes "ws_documents w0 (ws_bufnr w0) = Some d"
    and "await (DocPatchChange d) (ti_patchChange E) (w0\<lparr>lastInsert := None\<rparr>) = (Inr (), w1)"
    and "activted w1" and "complete w1 = Some c" and "opt = c_option (completes w1 c)"
    and "opt_bufnr opt = bnr"
    and "acceptSuggestionOnCommitCharacter (config w1)"
    and "latestInsertChar w0 = ch" and "ch \<noteq> []"
    and "document w1 = Some dd" and "\<not> isWord (docs w1 dd) ch"
    and "(if currIndex w1 \<noteq> 0 then nth_opt (completeItems w1) (currIndex w1 - 1)
          else nth_opt (completeItems w1) 0) = Some it"
    and "word it = Some wd"
    and "sources_shouldCommit D (Some it) ch"
    and "answer (ti_setline E) = Inr ()" and "answer (ti_cursor E) = Inr ()"
  shows
    "let w2 = snd (stop w1);
         newLine = js_slice (line opt) 0 (col opt) @ wd @ ch @ js_slice_from (line opt) (colnr opt - 1);
         curcol = col opt + int (length wd) + 2;
         w3 = yield (step (ti_setline E)) (emit (SetLine (linenr opt) newLine) w2);
         w4 = yield (step (ti_cursor E)) (emit (Cursor (linenr opt) curcol) w3)
     in onTextChangedI D E bnr w0 = (Inr (), w4) \<and>
        \<not> activted w2 \<and> complete w2 = None \<and> completeItems w2 = [] \<and>
        new_events w0 w4 =
          DocPatchChange d # stop_events w1 dd
            @ [SetLine (linenr opt) newLine, Cursor (linenr opt) curcol] \<and>
        Coc_hide \<in> set (new_events w0 w4) \<and>
        (\<forall>i p. SourcesCompleteDone i p \<notin> set (new_events w0 w4)) \<and>
        (0 \<le> col opt \<and> col opt \<le> int (length (line opt)) \<and> length ch = 1 \<longrightarrow>
           curcol = int (length (js_slice (line opt) 0 (col opt) @ wd @ ch)) + 1)"
proof -
  let ?newLine = "js_slice (line opt) 0 (col opt) @ wd @ ch @ js_slice_from (line opt) (colnr opt - 1)"
  let ?curcol = "col opt + int (length wd) + 2"
  let ?w2 = "snd (stop w1)"
  let ?w3 = "yield (step (ti_setline E)) (emit (SetLine (linenr opt) ?newLine) ?w2)"
  let ?w4 = "yield (step (ti_cursor E)) (emit (Cursor (linenr opt) ?curcol) ?w3)"
  have o: "option_of w1 = Some opt" and b: "bufnr_of w1 = Some bnr"
    using assms(4,5,6) by (simp_all add: bufnr_of_def option_of_def)
  have st: "stop w1 = (Inr (), ?w2)" using stop_nf [OF assms(3,10)] by simp
  have cm: "commit E (Some it) ch w1 = (Inr (), ?w4)"
    using o assms(13,15,16)
    by (simp add: commit_def andThen_Inr [of stop w1, OF st] andThen_await await_answer
        word_text_def Let_def)
  have "onTextChangedI D E bnr w0 = commit E (Some it) ch w1"
    using assms(1,2,3,7,8,9,10,11,12,14) b
    by (simp add: onTextChangedI_def Let_def andThen_def isActivted_def)
  then have r: "onTextChangedI D E bnr w0 = (Inr (), ?w4)" using cm by simp
  have o1: "out w1 = out w0 @ [DocPatchChange d]" using await_out [OF assms(2)] by simp
  have o2: "out ?w2 = out w1 @ stop_events w1 dd" using stop_nf [OF assms(3,10)] by simp
  have ev: "new_events w0 ?w4 =
      DocPatchChange d # stop_events w1 dd @ [SetLine (linenr opt) ?newLine, Cursor (linenr opt) ?curcol]"
    using o1 o2 by (simp add: new_events_def)
  have hook: "SourcesCompleteDone i p \<notin> set (stop_events w1 dd)" for i p
    by (simp add: stop_events_def split: option.splits)
  have cur: "?curcol = int (length (js_slice (line opt) 0 (col opt) @ wd @ ch)) + 1"
    if "0 \<le> col opt" "col opt \<le> int (length (line opt))" "length ch = 1"
  proof -
    have "nat (col opt) \<le> length (line opt)" using that(1,2) by linarith
    then show ?thesis using that by (simp add: js_slice_def js_index_def Let_def min_def)
  qed
  show ?thesis
    unfolding Let_def
    using r ev hook cur stop_events_hide [of w1 dd] stop_nf [OF assms(3,10)]
    by simp
qed

text \<open>
  The scenario of the spec, where every character is one byte: \<open>foo\<close> is selected, the line
  is \<open>fo\<close> and a dot is typed. The line becomes \<open>foo.\<close>, the cursor goes to column 5 and the
  session is stopped.
\<close>

lemma commit_in_code_units_ascii:
  "(let r = onTextChangedI collab0 textChangedI_env0 1 world_commit
    in fst r = Inr () \<and> \<not> activted (snd r) \<and>
       new_events world_commit (snd r) =
         [DocPatchChange 0, DocFireContentChanges 0, CompleteCancel 1, Coc_hide,
          SetCompleteopt ''menu,preview'', SetLine 1 ''foo.'', Cursor 1 5])"
proof -
  let ?w1 = "yield (\<lambda>w. w) (emit (DocPatchChange 0) (world_commit\<lparr>lastInsert := None\<rparr>))"
  have h: "ws_documents world_commit (ws_bufnr world_commit) = Some 0"
    "await (DocPatchChange 0) (ti_patchChange textChangedI_env0)
       (world_commit\<lparr>lastInsert := None\<rparr>) = (Inr (), ?w1)"
    "activted ?w1" "complete ?w1 = Some 1" "opt0 = c_option (completes ?w1 1)"
    "opt_bufnr opt0 = 1" "acceptSuggestionOnCommitCharacter (config ?w1)"
    "latestInsertChar world_commit = ''.''" "''.'' \<noteq> []"
    "document ?w1 = Some 0" "\<not> isWord (docs ?w1 0) ''.''"
    "(if currIndex ?w1 \<noteq> 0 then nth_opt (completeItems ?w1) (currIndex ?w1 - 1)
      else nth_opt (completeItems ?w1) 0) = Some (item0 ''foo'')"
    "word (item0 ''foo'') = Some ''foo''"
    "sources_shouldCommit collab0 (Some (item0 ''foo'')) ''.''"
    "answer (ti_setline textChangedI_env0) = Inr ()"
    "answer (ti_cursor textChangedI_env0) = Inr ()"
    by (simp_all add: world_commit_def ex_defs textChangedI_env0_def await_def yield_def emit_def
        latestInsertChar_def latestInsert_def nth_opt_def lower_word_def)
  have a: "activted ?w1" and d: "document ?w1 = Some 0" by (rule h(3), rule h(10))
  have s: "stop_events ?w1 0 =
      [DocFireContentChanges 0, CompleteCancel 1, Coc_hide, SetCompleteopt ''menu,preview'']"
    by (simp add: stop_events_def world_commit_def ex_defs yield_def emit_def)
  have l: "js_slice (line opt0) 0 (col opt0) @ ''foo'' @ ''.''
             @ js_slice_from (line opt0) (colnr opt0 - 1) = ''foo.''"
    "col opt0 + int (length ''foo'') + 2 = 5" "linenr opt0 = 1"
    by (simp_all add: opt0_def js_slice_def js_slice_from_def js_index_def)
  have f: "\<not> activted (yield (step (ti_cursor textChangedI_env0)) w)" if "\<not> activted w" for w
    using that by (simp add: textChangedI_env0_def quiet_def yield_def)
  have g: "\<not> activted (yield (step (ti_setline textChangedI_env0)) w)" if "\<not> activted w" for w
    using that by (simp add: textChangedI_env0_def quiet_def yield_def)
  have e: "activted (emit ev w) = activted w" for ev w by (simp add: emit_def)
  show ?thesis
    using commit_in_code_units [OF h, unfolded Let_def l s]
    by (simp add: Let_def f g e stop_inactive)
qed

text \<open>
  C4. The line is to become prefix, candidate word, commit character and suffix, with the
  cursor right after the inserted text. The trigger context gives \<open>col\<close> and \<open>colnr\<close> in
  bytes, and the code cuts the line with \<open>line.slice(0, col)\<close> and \<open>line.slice(colnr - 1)\<close>,
  which count UTF-16 code units. On a line of three characters, an accented e of two bytes
  and then \<open>fo\<close>, with \<open>foo\<close> selected and a dot typed, the prefix (the text before the byte
  \<open>col = 2\<close>) is the accented e and the suffix (the text from the byte \<open>colnr - 1 = 4\<close>) is
  empty, so the line is to become the accented e and \<open>foo.\<close>; the handler stops the session
  and writes the accented e and \<open>ffoo.\<close>, and puts the cursor at the byte column 7 of that
  line, before which the text is the accented e and \<open>ffoo\<close>: the cursor is on the dot, not
  past it.
\<close>

theorem commit_multibyte_line:
  "line opt_accent = CHR 0xE9 # ''fo'' \<and> utf8_length (line opt_accent) = 4 \<and>
   col opt_accent = 2 \<and> colnr opt_accent = 5 \<and>
   byte_take 2 (line opt_accent) = [CHR 0xE9] \<and> byte_drop 4 (line opt_accent) = [] \<and>
   byte_take 2 (line opt_accent) @ ''foo'' @ ''.'' @ byte_drop 4 (line opt_accent)
     = CHR 0xE9 # ''foo.'' \<and>
   fst accent_commit = Inr () \<and> \<not> activted (snd accent_commit) \<and>
   new_events world_accent (snd accent_commit) =
     [DocPatchChange 0, DocFireContentChanges 0, CompleteCancel 1, Coc_hide,
      SetCompleteopt ''menu,preview'', SetLine 1 (CHR 0xE9 # ''ffoo.''), Cursor 1 7] \<and>
   byte_take 6 (CHR 0xE9 # ''ffoo.'') = CHR 0xE9 # ''ffoo''"
proof -
  let ?w1 = "yield (\<lambda>w. w) (emit (DocPatchChange 0) (world_accent\<lparr>lastInsert := None\<rparr>))"
  have h: "ws_documents world_accent (ws_bufnr world_accent) = Some 0"
    "await (DocPatchChange 0) (ti_patchChange textChangedI_env0)
       (world_accent\<lparr>lastInsert := None\<rparr>) = (Inr (), ?w1)"
    "activted ?w1" "complete ?w1 = Some 1" "opt_accent = c_option (completes ?w1 1)"
    "opt_bufnr opt_accent = 1" "acceptSuggestionOnCommitCharacter (config ?w1)"
    "latestInsertChar world_accent = ''.''" "''.'' \<noteq> []"
    "document ?w1 = Some 0" "\<not> isWord (docs ?w1 0) ''.''"
    "(if currIndex ?w1 \<noteq> 0 then nth_opt (completeItems ?w1) (currIndex ?w1 - 1)
      else nth_opt (completeItems ?w1) 0) = Some (item0 ''foo'')"
    "word (item0 ''foo'') = Some ''foo''"
    "sources_shouldCommit collab0 (Some (item0 ''foo'')) ''.''"
    "answer (ti_setline textChangedI_env0) = Inr ()"
    "answer (ti_cursor textChangedI_env0) = Inr ()"
    by (simp_all add: world_accent_def opt_accent_def world_commit_def ex_defs
        textChangedI_env0_def await_def yield_def emit_def
        latestInsertChar_def latestInsert_def nth_opt_def lower_word_def)
  have s: "stop_events ?w1 0 =
      [DocFireContentChanges 0, CompleteCancel 1, Coc_hide, SetCompleteopt ''menu,preview'']"
    by (simp add: stop_events_def world_accent_def world_commit_def ex_defs yield_def emit_def)
  have l: "js_slice (line opt_accent) 0 (col opt_accent) @ ''foo'' @ ''.''
             @ js_slice_from (line opt_accent) (colnr opt_accent - 1) = CHR 0xE9 # ''ffoo.''"
    "col opt_accent + int (length ''foo'') + 2 = 7" "linenr opt_accent = 1"
    by (simp_all add: opt_accent_def opt0_def js_slice_def js_slice_from_def js_index_def)
  have f: "\<not> activted (yield (step (ti_cursor textChangedI_env0)) w)" if "\<not> activted w" for w
    using that by (simp add: textChangedI_env0_def quiet_def yield_def)
  have g: "\<not> activted (yield (step (ti_setline textChangedI_env0)) w)" if "\<not> activted w" for w
    using that by (simp add: textChangedI_env0_def quiet_def yield_def)
  have e: "activted (emit ev w) = activted w" for ev w by (simp add: emit_def)
  have r: "fst accent_commit = Inr () \<and> \<not> activted (snd accent_commit) \<and>
           new_events world_accent (snd accent_commit) =
             [DocPatchChange 0, DocFireContentChanges 0, CompleteCancel 1, Coc_hide,
              SetCompleteopt ''menu,preview'', SetLine 1 (CHR 0xE9 # ''ffoo.''), Cursor 1 7]"
    unfolding accent_commit_def
    using commit_in_code_units [OF h, unfolded Let_def l s]
    by (simp add: Let_def f g e stop_inactive)
  have b: "line opt_accent = CHR 0xE9 # ''fo''" "utf8_length (line opt_accent) = 4"
    "col opt_accent = 2" "colnr opt_accent = 5"
    "byte_take 2 (line opt_accent) = [CHR 0xE9]" "byte_drop 4 (line opt_accent) = []"
    "byte_take 6 (CHR 0xE9 # ''ffoo.'') = CHR 0xE9 # ''ffoo''"
    by (simp_all add: opt_accent_def opt0_def utf8_length_def utf8_width_def)
  show ?thesis using r b by simp
qed

subsection \<open>C6: after a candidate is accepted\<close>

lemma out_addRecent [simp]: "out (addRecent wd b w) = out w"
  by (simp add: addRecent_def split: option.splits)

lemma completeDone_settle_cases:
  "(\<exists>e w'. completeDone_settle E d it0 w = (Inl e, w') \<and>
       (out w' = out w @ [SourcesResolve it0 (next_ref w)] \<or>
        out w' = out w @ [SourcesResolve it0 (next_ref w), Wait 50, Call ''mode''])) \<or>
   (\<exists>it mode w'. completeDone_settle E d it0 w = (Inr (it, mode), w') \<and>
       out w' = out w @ [SourcesResolve it0 (next_ref w), Wait 50, Call ''mode''])"
  by (cases "answer (cd_resolve E)"; cases "answer (cd_mode E)")
    (simp_all add: completeDone_settle_def new_token_def andThen_def await_def ret_def Let_def)

lemma getPreviousContent_out:
  "getPreviousContent D a d w = (x, w') \<Longrightarrow> out w' = out w @ [Call ''getcurpos'']"
  by (cases "answer a")
    (auto simp add: getPreviousContent_def andThen_def await_def Let_def
      split: prod.splits if_splits)

lemma completeDone_content_cases:
  "(\<exists>e w'. completeDone_content D E d w = (Inl e, w') \<and>
       (out w' = out w @ [DocPatchChange d] \<or>
        out w' = out w @ [DocPatchChange d, Call ''getcurpos''])) \<or>
   (\<exists>c w'. completeDone_content D E d w = (Inr c, w') \<and>
       out w' = out w @ [DocPatchChange d, Call ''getcurpos''])"
proof (cases "answer (cd_patchChange E)")
  case (Inl e)
  then show ?thesis by (simp add: completeDone_content_def andThen_await)
next
  case (Inr u)
  let ?w = "yield (step (cd_patchChange E)) (emit (DocPatchChange d) w)"
  obtain x w' where g: "getPreviousContent D (cd_getcurpos E) d ?w = (x, w')"
    by (cases "getPreviousContent D (cd_getcurpos E) d ?w")
  have "out w' = out w @ [DocPatchChange d, Call ''getcurpos'']"
    using getPreviousContent_out [OF g] by simp
  then show ?thesis using Inr g by (cases x) (simp_all add: completeDone_content_def andThen_await)
qed

lemma hook_free_simps [simp]:
  "hook_free d []"
  "hook_free d (a @ b) = (hook_free d a \<and> hook_free d b)"
  "hook_free d (stop_events w d')"
  by (auto simp add: hook_free_def stop_events_def split: option.splits)

lemma completeDone_try_cases:
  "\<exists>evs. out (snd (completeDone_try D E d opt it0 ts lts w1)) = out w1 @ evs \<and>
     (hook_free d evs \<or>
      (\<exists>it w5 ct w7.
         completeDone_settle E d it0 w1 = (Inr (it, ''i''), w5) \<and>
         insertCharTs w5 = ts \<and> insertLeaveTs w5 = lts \<and>
         completeDone_content D E d w5 = (Inr (Some ct), w7) \<and> js_endsWith ct (word_text it)))"
proof -
  let ?r = "completeDone_try D E d opt it0 ts lts w1"
  from completeDone_settle_cases [of E d it0 w1]
  consider (rejected) e w5 where "completeDone_settle E d it0 w1 = (Inl e, w5)"
      "out w5 = out w1 @ [SourcesResolve it0 (next_ref w1)] \<or>
       out w5 = out w1 @ [SourcesResolve it0 (next_ref w1), Wait 50, Call ''mode'']"
    | (settled) it mode w5 where "completeDone_settle E d it0 w1 = (Inr (it, mode), w5)"
      "out w5 = out w1 @ [SourcesResolve it0 (next_ref w1), Wait 50, Call ''mode'']"
    by blast
  then show ?thesis
  proof cases
    case rejected
    then have "snd ?r = w5" by (simp add: completeDone_try_def andThen_Inl)
    then show ?thesis using rejected(2) by (auto simp add: hook_free_def)
  next
    case settled
    show ?thesis
    proof (cases "mode \<noteq> ''i'' \<or> insertCharTs w5 \<noteq> ts \<or> insertLeaveTs w5 \<noteq> lts")
      case True
      then have "snd ?r = w5"
        using settled(1) by (auto simp add: completeDone_try_def andThen_Inr)
      then show ?thesis using settled(2) by (simp add: hook_free_def)
    next
      case False
      then have fresh: "mode = ''i''" "insertCharTs w5 = ts" "insertLeaveTs w5 = lts" by simp_all
      from completeDone_content_cases [of D E d w5]
      consider (failed) e w7 where "completeDone_content D E d w5 = (Inl e, w7)"
          "out w7 = out w5 @ [DocPatchChange d] \<or>
           out w7 = out w5 @ [DocPatchChange d, Call ''getcurpos'']"
        | (read) c w7 where "completeDone_content D E d w5 = (Inr c, w7)"
          "out w7 = out w5 @ [DocPatchChange d, Call ''getcurpos'']"
        by blast
      then show ?thesis
      proof cases
        case failed
        then have "snd ?r = w7"
          using settled(1) fresh by (simp add: completeDone_try_def andThen_Inr andThen_Inl)
        then show ?thesis
          using failed(2) settled(2) by (auto simp add: hook_free_def)
      next
        case read
        show ?thesis
        proof (cases c)
          case None
          then have "snd ?r = w7"
            using settled(1) fresh read(1) by (simp add: completeDone_try_def andThen_Inr)
          then show ?thesis
            using read(2) settled(2) by (simp add: hook_free_def)
        next
          case (Some ct)
          show ?thesis
          proof (cases "js_endsWith ct (word_text it)")
            case True
            have "\<exists>evs. out (snd ?r) = out w7 @ evs"
              using settled(1) fresh read(1) Some True
              by (cases "answer (cd_doCompleteDone E)")
                (simp_all add: completeDone_try_def andThen_Inr andThen_await)
            then show ?thesis using settled fresh read Some True by auto
          next
            case False
            then have "snd ?r = w7"
              using settled(1) fresh read(1) Some by (simp add: completeDone_try_def andThen_Inr)
            then show ?thesis
              using read(2) settled(2) by (simp add: hook_free_def)
          qed
        qed
      qed
    qed
  qed
qed

lemma onCompleteDone_entry:
  assumes "document w = Some d" and "activted w" and "word item \<noteq> None"
    and "find (same_item item) (completeItems w) = Some it0"
  shows "onCompleteDone D E item w =
     (case completeDone_try D E d (option_of w) it0 (insertCharTs (snd (stop w)))
             (insertLeaveTs (snd (stop w))) (snd (stop w)) of
        (Inl e, w2) \<Rightarrow>
          (Inr (), emit (LoggerError (''error on complete done'' @ stack e))
                     (emit (ConsoleError (stack e)) w2))
      | (Inr u, w2) \<Rightarrow> (Inr (), w2))"
proof -
  have st: "stop w = (Inr (), snd (stop w))" using stop_nf [OF assms(2,1)] by simp
  show ?thesis
    using assms
    by (auto simp add: onCompleteDone_def isActivted_def Let_def andThen_Inr [of stop w, OF st])
qed

text \<open>
  C6. \<open>onCompleteDone\<close> for an accepted item that is found in the candidate list of an active
  session stops the session first (the two timestamps are not changed by that). Then, with
  \<open>w5\<close> the world when the mode has been read and \<open>w7\<close> the world when the text before the
  cursor has been read: if the mode is not \<open>i\<close> or one of the two timestamps differs from its
  value at acceptance, the handler ends in \<open>w5\<close>, having called only the resolve, the delay
  and the mode; if the text does not end with the accepted word, it ends in \<open>w7\<close>; in both
  cases nothing is logged and no session is started. The accept hook of the registry or the
  re-sync of the document is among the calls of the handler only if the mode was \<open>i\<close>, both
  timestamps were unchanged and the text before the cursor ended with the accepted word.
\<close>

theorem completeDone_freshness:
  assumes "document w = Some d" and "activted w" and "word item \<noteq> None"
    and "find (same_item item) (completeItems w) = Some it0"
  shows
    "let w1 = snd (stop w); ts = insertCharTs w; lts = insertLeaveTs w;
         r = onCompleteDone D E item w
     in \<not> activted w1 \<and> insertCharTs w1 = ts \<and> insertLeaveTs w1 = lts \<and>
        (\<forall>it mode w5.
           completeDone_settle E d it0 w1 = (Inr (it, mode), w5) \<and>
           (mode \<noteq> ''i'' \<or> insertCharTs w5 \<noteq> ts \<or> insertLeaveTs w5 \<noteq> lts) \<longrightarrow>
             r = (Inr (), w5) \<and>
             new_events w1 w5 = [SourcesResolve it0 (next_ref w1), Wait 50, Call ''mode'']) \<and>
        (\<forall>it w5 ct w7.
           completeDone_settle E d it0 w1 = (Inr (it, ''i''), w5) \<and>
           insertCharTs w5 = ts \<and> insertLeaveTs w5 = lts \<and>
           completeDone_content D E d w5 = (Inr (Some ct), w7) \<and>
           \<not> js_endsWith ct (word_text it) \<longrightarrow>
             r = (Inr (), w7) \<and>
             new_events w1 w7 = [SourcesResolve it0 (next_ref w1), Wait 50, Call ''mode'',
                                 DocPatchChange d, Call ''getcurpos'']) \<and>
        (\<not> hook_free d (new_events w (snd r)) \<longrightarrow>
           (\<exists>it w5 ct w7.
              completeDone_settle E d it0 w1 = (Inr (it, ''i''), w5) \<and>
              insertCharTs w5 = ts \<and> insertLeaveTs w5 = lts \<and>
              completeDone_content D E d w5 = (Inr (Some ct), w7) \<and>
              js_endsWith ct (word_text it)))"
proof -
  let ?w1 = "snd (stop w)"
  let ?ts = "insertCharTs w" and ?lts = "insertLeaveTs w"
  let ?r = "onCompleteDone D E item w"
  let ?body = "completeDone_try D E d (option_of w) it0 ?ts ?lts ?w1"
  have w1: "\<not> activted ?w1" "insertCharTs ?w1 = ?ts" "insertLeaveTs ?w1 = ?lts"
    "out ?w1 = out w @ stop_events w d"
    using stop_nf [OF assms(2,1)] by simp_all
  have r: "?r = (case ?body of
        (Inl e, w2) \<Rightarrow>
          (Inr (), emit (LoggerError (''error on complete done'' @ stack e))
                     (emit (ConsoleError (stack e)) w2))
      | (Inr u, w2) \<Rightarrow> (Inr (), w2))"
    using onCompleteDone_entry [OF assms, of D E] w1 by simp
  have stale: "?r = (Inr (), w5) \<and>
      new_events ?w1 w5 = [SourcesResolve it0 (next_ref ?w1), Wait 50, Call ''mode'']"
    if "completeDone_settle E d it0 ?w1 = (Inr (it, mode), w5)"
      "mode \<noteq> ''i'' \<or> insertCharTs w5 \<noteq> ?ts \<or> insertLeaveTs w5 \<noteq> ?lts" for it mode w5
  proof -
    have "?body = (Inr (), w5)" using that by (auto simp add: completeDone_try_def andThen_Inr)
    then show ?thesis
      using r that(1) completeDone_settle_cases [of E d it0 ?w1]
      by (auto simp add: new_events_def)
  qed
  have other: "?r = (Inr (), w7) \<and>
      new_events ?w1 w7 = [SourcesResolve it0 (next_ref ?w1), Wait 50, Call ''mode'',
                           DocPatchChange d, Call ''getcurpos'']"
    if "completeDone_settle E d it0 ?w1 = (Inr (it, ''i''), w5)"
      "insertCharTs w5 = ?ts" "insertLeaveTs w5 = ?lts"
      "completeDone_content D E d w5 = (Inr (Some ct), w7)"
      "\<not> js_endsWith ct (word_text it)" for it w5 ct w7
  proof -
    have "?body = (Inr (), w7)" using that by (simp add: completeDone_try_def andThen_Inr)
    then show ?thesis
      using r that(1,4) completeDone_settle_cases [of E d it0 ?w1]
        completeDone_content_cases [of D E d w5]
      by (auto simp add: new_events_def)
  qed
  have hook: "\<exists>it w5 ct w7.
      completeDone_settle E d it0 ?w1 = (Inr (it, ''i''), w5) \<and>
      insertCharTs w5 = ?ts \<and> insertLeaveTs w5 = ?lts \<and>
      completeDone_content D E d w5 = (Inr (Some ct), w7) \<and> js_endsWith ct (word_text it)"
    if nf: "\<not> hook_free d (new_events w (snd ?r))"
  proof -
    obtain evs where evs: "out (snd ?body) = out ?w1 @ evs"
      and c: "hook_free d evs \<or>
        (\<exists>it w5 ct w7.
           completeDone_settle E d it0 ?w1 = (Inr (it, ''i''), w5) \<and>
           insertCharTs w5 = ?ts \<and> insertLeaveTs w5 = ?lts \<and>
           completeDone_content D E d w5 = (Inr (Some ct), w7) \<and> js_endsWith ct (word_text it))"
      using completeDone_try_cases [of D E d "option_of w" it0 ?ts ?lts ?w1] by blast
    obtain x w2 where t: "?body = (x, w2)" by (cases ?body)
    have "hook_free d evs \<Longrightarrow> hook_free d (new_events w (snd ?r))"
      using r t evs w1(4) by (cases x) (simp_all add: new_events_def, simp_all add: hook_free_def)
    then show ?thesis using c nf by blast
  qed
  show ?thesis unfolding Let_def using w1(1,2,3) stale other hook by blast
qed

lemmas stop_defs = stop_def cancelResolve_def closePreviewWindow_def complete_cancel_def
  emit_def Let_def

lemmas completeDone_defs = completeDone_settle_def completeDone_content_def
  getPreviousContent_def new_token_def addRecent_def option_of_def andThen_def await_def
  ret_def yield_def onInsertLeave_def completeDone_env_left_def completeDone_env0_def
  world_accepted_def

text \<open>
  The scenario of the spec: \<open>foo\<close> is accepted at time 1000, the user leaves insert mode at
  1020 and the resolve answers at 1080; neither the hook nor the re-sync is called. When
  nothing happens in between, both are called.
\<close>

theorem completeDone_freshness_witness:
  "(let r = onCompleteDone collab0 completeDone_env_left (item0 ''foo'') world_accepted
    in fst r = Inr () \<and> hook_free 0 (new_events world_accepted (snd r)) \<and>
       \<not> activted (snd r) \<and> insertLeaveTs (snd r) = 1020 \<and>
       insertLeaveTs world_accepted = 0) \<and>
   (let r = onCompleteDone collab0 completeDone_env0 (item0 ''foo'') world_accepted
    in \<not> hook_free 0 (new_events world_accepted (snd r)) \<and>
       (\<exists>it w5 ct w7.
          completeDone_settle completeDone_env0 0 (item0 ''foo'') (snd (stop world_accepted))
            = (Inr (it, ''i''), w5) \<and>
          completeDone_content collab0 completeDone_env0 0 w5 = (Inr (Some ct), w7) \<and>
          js_endsWith ct (word_text it)))"
proof -
  let ?w = world_accepted
  let ?w1 = "snd (stop ?w)"
  have h: "document ?w = Some 0" "activted ?w" "word (item0 ''foo'') \<noteq> None"
    "find (same_item (item0 ''foo'')) (completeItems ?w) = Some (item0 ''foo'')"
    by (simp_all add: world_accepted_def ex_defs same_item_def)
  note left = completeDone_freshness [OF h, of collab0 completeDone_env_left, unfolded Let_def]
  note calm = completeDone_freshness [OF h, of collab0 completeDone_env0, unfolded Let_def]
  have o1: "out ?w1 = out ?w @ stop_events ?w 0" using stop_nf [OF h(2,1)] by simp
  obtain w5 where s: "completeDone_settle completeDone_env_left 0 (item0 ''foo'') ?w1
        = (Inr (item0 ''foo'', ''n''), w5)"
    and p: "insertLeaveTs w5 = 1020" "\<not> activted w5" "insertLeaveTs ?w = 0"
    by (simp add: completeDone_defs stop_defs ex_defs)
  have r: "onCompleteDone collab0 completeDone_env_left (item0 ''foo'') ?w = (Inr (), w5)"
    and e: "new_events ?w1 w5 = [SourcesResolve (item0 ''foo'') (next_ref ?w1), Wait 50, Call ''mode'']"
    using left s by blast+
  have "out w5 = out ?w1 @ new_events ?w1 w5"
    using completeDone_settle_cases [of completeDone_env_left 0 "item0 ''foo''" ?w1] s
    by (auto simp add: new_events_def)
  then have f: "hook_free 0 (new_events ?w w5)"
    using o1 e by (simp add: new_events_def) (simp add: hook_free_def)
  have n: "\<not> hook_free 0 (new_events ?w
        (snd (onCompleteDone collab0 completeDone_env0 (item0 ''foo'') ?w)))"
    unfolding onCompleteDone_entry [OF h]
    by (simp add: completeDone_try_def completeDone_defs stop_defs ex_defs hook_free_def
        new_events_def js_slice_def js_index_def js_endsWith_def word_text_def)
  have "\<exists>it w5 ct w7.
          completeDone_settle completeDone_env0 0 (item0 ''foo'') ?w1 = (Inr (it, ''i''), w5) \<and>
          completeDone_content collab0 completeDone_env0 0 w5 = (Inr (Some ct), w7) \<and>
          js_endsWith ct (word_text it)"
    using calm n by blast
  then show ?thesis using r p f n by (simp add: Let_def)
qed

subsection \<open>C7: \<open>startCompletion\<close> without a session, and with a failing one\<close>

lemma start_succeeds:
  assumes "activted w \<longrightarrow> complete w \<noteq> None" and "document w = Some d"
  shows "fst (start c w) = Inr ()"
  using assms
  by (cases "complete w")
    (simp_all add: start_def Let_def closePreviewWindow_nf complete_cancel_def emit_def)

lemma doComplete_fetch_rejected:
  "answer (dc_doComplete E) = Inl e \<Longrightarrow>
   doComplete_fetch D E c arr w =
     (Inl e, yield (step (dc_doComplete E)) (emit (CompleteDoComplete c arr) w))"
  by (simp add: doComplete_fetch_def andThen_await)

lemma doComplete_sources_frame:
  "document w' = document w \<Longrightarrow> docs w' = docs w \<Longrightarrow>
   doComplete_sources D opt w' = doComplete_sources D opt w"
  by (simp add: doComplete_sources_def Let_def cong: if_cong option.case_cong sum.case_cong)

lemma new_Complete_fields:
  "activted (snd (new_Complete opt w)) = activted w"
  "complete (snd (new_Complete opt w)) = complete w"
  "document (snd (new_Complete opt w)) = document w"
  by (simp_all add: new_Complete_def)

text \<open>
  C7 (as amended). \<open>startCompletion\<close> starts no session and shows no message when the
  document cannot be resolved or no provider matches the trigger context; it is not free of
  state changes: it sets the buffer of the workspace to the buffer of the context and,
  when the document resolves and no provider matches, overwrites the document and the recorded
  input of the controller. Whenever \<open>_doComplete\<close> throws (as it does when the fetch of the
  aggregator rejects), the session is torn down by \<open>stop()\<close>, an error message with the
  message of the exception is shown and the stack of the exception is logged.
\<close>

theorem startCompletion_noop_and_failure:
  "(ws_documents w (opt_bufnr opt) = None \<longrightarrow>
      startCompletion D E opt w = (Inr (), w\<lparr>ws_bufnr := opt_bufnr opt\<rparr>)) \<and>
   (\<forall>d. ws_documents w (opt_bufnr opt) = Some d \<and>
        doComplete_sources D (opt\<lparr>opt_filetype := filetype (docs w d)\<rparr>)
          (w\<lparr>document := Some d\<rparr>) = Inr [] \<longrightarrow>
      startCompletion D E opt w =
        (Inr (), w\<lparr>ws_bufnr := opt_bufnr opt, document := Some d,
                   input := Some (opt_input opt)\<rparr>)) \<and>
   (\<forall>d e w2. ws_documents w (opt_bufnr opt) = Some d \<and>
        priv_doComplete D E (opt\<lparr>opt_filetype := filetype (docs w d)\<rparr>)
          (w\<lparr>ws_bufnr := opt_bufnr opt, document := Some d\<rparr>) = (Inl e, w2) \<and>
        (activted w2 \<longrightarrow> document w2 \<noteq> None) \<longrightarrow>
      (let r = startCompletion D E opt w
       in fst r = Inr () \<and> \<not> activted (snd r) \<and>
          snd r = emit (LoggerError (stack e))
                    (emit (ShowMessage (''Error happens on complete: '' @ message e) ''error'')
                       (snd (stop w2))) \<and>
          (activted w2 \<longrightarrow>
             complete (snd r) = None \<and> completeItems (snd r) = [] \<and>
             Coc_hide \<in> set (new_events w2 (snd r))))) \<and>
   (\<forall>d arr e. ws_documents w (opt_bufnr opt) = Some d \<and>
        doComplete_sources D (opt\<lparr>opt_filetype := filetype (docs w d)\<rparr>)
          (w\<lparr>document := Some d\<rparr>) = Inr arr \<and> arr \<noteq> [] \<and>
        (activted w \<longrightarrow> complete w \<noteq> None) \<and> answer (dc_doComplete E) = Inl e \<longrightarrow>
      (\<exists>w2. priv_doComplete D E (opt\<lparr>opt_filetype := filetype (docs w d)\<rparr>)
               (w\<lparr>ws_bufnr := opt_bufnr opt, document := Some d\<rparr>) = (Inl e, w2)))"
proof (intro conjI allI impI)
  assume "ws_documents w (opt_bufnr opt) = None"
  then show "startCompletion D E opt w = (Inr (), w\<lparr>ws_bufnr := opt_bufnr opt\<rparr>)"
    by (simp add: startCompletion_def)
next
  fix d
  let ?opt = "opt\<lparr>opt_filetype := filetype (docs w d)\<rparr>"
  assume a: "ws_documents w (opt_bufnr opt) = Some d \<and>
    doComplete_sources D ?opt (w\<lparr>document := Some d\<rparr>) = Inr []"
  have "doComplete_sources D ?opt
          (w\<lparr>ws_bufnr := opt_bufnr opt, document := Some d, input := Some (opt_input ?opt)\<rparr>)
        = doComplete_sources D ?opt (w\<lparr>document := Some d\<rparr>)"
    by (rule doComplete_sources_frame) simp_all
  then show "startCompletion D E opt w =
      (Inr (), w\<lparr>ws_bufnr := opt_bufnr opt, document := Some d, input := Some (opt_input opt)\<rparr>)"
    using a by (simp add: startCompletion_def priv_doComplete_def Let_def)
next
  fix d e w2
  let ?opt = "opt\<lparr>opt_filetype := filetype (docs w d)\<rparr>"
  assume a: "ws_documents w (opt_bufnr opt) = Some d \<and>
    priv_doComplete D E ?opt (w\<lparr>ws_bufnr := opt_bufnr opt, document := Some d\<rparr>) = (Inl e, w2) \<and>
    (activted w2 \<longrightarrow> document w2 \<noteq> None)"
  have st: "fst (stop w2) = Inr ()"
  proof (cases "activted w2")
    case True
    with a have "document w2 \<noteq> None" by blast
    then obtain d2 where "document w2 = Some d2" by (cases "document w2") auto
    then show ?thesis using True by (simp add: stop_nf)
  next
    case False
    then show ?thesis by (simp add: stop_idle)
  qed
  then have s: "stop w2 = (Inr (), snd (stop w2))" by (cases "stop w2") simp
  have r: "startCompletion D E opt w =
      (Inr (), emit (LoggerError (stack e))
                 (emit (ShowMessage (''Error happens on complete: '' @ message e) ''error'')
                    (snd (stop w2))))"
    using a by (simp add: startCompletion_def Let_def andThen_Inr [of stop w2, OF s])
  have e: "activted (emit ev w') = activted w'" "complete (emit ev w') = complete w'"
    "completeItems (emit ev w') = completeItems w'" for ev w'
    by (simp_all add: emit_def)
  have act: "complete (snd (stop w2)) = None \<and> completeItems (snd (stop w2)) = [] \<and>
      Coc_hide \<in> set (new_events w2 (emit (LoggerError (stack e))
                 (emit (ShowMessage (''Error happens on complete: '' @ message e) ''error'')
                    (snd (stop w2)))))" if "activted w2"
  proof -
    from a that have "document w2 \<noteq> None" by blast
    then obtain d2 where "document w2 = Some d2" by (cases "document w2") auto
    then show ?thesis
      using that stop_events_hide [of w2 d2] by (simp add: stop_nf new_events_def)
  qed
  show "let r = startCompletion D E opt w
       in fst r = Inr () \<and> \<not> activted (snd r) \<and>
          snd r = emit (LoggerError (stack e))
                    (emit (ShowMessage (''Error happens on complete: '' @ message e) ''error'')
                       (snd (stop w2))) \<and>
          (activted w2 \<longrightarrow>
             complete (snd r) = None \<and> completeItems (snd r) = [] \<and>
             Coc_hide \<in> set (new_events w2 (snd r)))"
    unfolding Let_def r using act by (simp add: e stop_inactive)
next
  fix d arr e
  let ?opt = "opt\<lparr>opt_filetype := filetype (docs w d)\<rparr>"
  let ?w = "w\<lparr>ws_bufnr := opt_bufnr opt, document := Some d, input := Some (opt_input ?opt)\<rparr>"
  assume a: "ws_documents w (opt_bufnr opt) = Some d \<and>
    doComplete_sources D ?opt (w\<lparr>document := Some d\<rparr>) = Inr arr \<and> arr \<noteq> [] \<and>
    (activted w \<longrightarrow> complete w \<noteq> None) \<and> answer (dc_doComplete E) = Inl e"
  have "doComplete_sources D ?opt ?w = doComplete_sources D ?opt (w\<lparr>document := Some d\<rparr>)"
    by (rule doComplete_sources_frame) simp_all
  then have src: "doComplete_sources D ?opt ?w = Inr arr"
    using a by simp
  obtain c w1 where n: "new_Complete ?opt ?w = (c, w1)" by (cases "new_Complete ?opt ?w")
  have "fst (start c w1) = Inr ()"
  proof (rule start_succeeds)
    show "activted w1 \<longrightarrow> complete w1 \<noteq> None"
      using a n new_Complete_fields(1,2) [of ?opt ?w] by simp
    show "document w1 = Some d" using n new_Complete_fields(3) [of ?opt ?w] by simp
  qed
  then have s: "start c w1 = (Inr (), snd (start c w1))" by (cases "start c w1") simp
  have "priv_doComplete D E ?opt (w\<lparr>ws_bufnr := opt_bufnr opt, document := Some d\<rparr>) =
      (Inl e, yield (step (dc_doComplete E))
                (emit (CompleteDoComplete c arr) (snd (start c w1))))"
    using a src n
    by (simp add: priv_doComplete_def Let_def andThen_Inr [of "start c" w1, OF s]
        doComplete_fetch_rejected)
  then show "\<exists>w2. priv_doComplete D E ?opt (w\<lparr>ws_bufnr := opt_bufnr opt, document := Some d\<rparr>)
      = (Inl e, w2)" by blast
qed

lemmas start_defs = startCompletion_def priv_doComplete_def doComplete_sources_def
  new_Complete_def start_def completeOpt_def doComplete_fetch_def closePreviewWindow_def
  andThen_def await_def yield_def emit_def Let_def

text \<open>
  A trigger on the line \<open>fo\<close> whose fetch rejects with the message \<open>boom\<close>: the session that
  was started is stopped, the message is shown and the stack is logged. A trigger in a buffer
  without a document and a trigger for a provider that does not exist start nothing.
\<close>

theorem startCompletion_noop_and_failure_witness:
  "(let r = startCompletion collab0 doComplete_env_fail opt0 world_idle
    in fst r = Inr () \<and> \<not> activted (snd r) \<and> complete (snd r) = None \<and>
       Coc_hide \<in> set (new_events world_idle (snd r)) \<and>
       ShowMessage ''Error happens on complete: boom'' ''error''
         \<in> set (new_events world_idle (snd r)) \<and>
       LoggerError ''at fetch'' \<in> set (new_events world_idle (snd r))) \<and>
   startCompletion collab0 doComplete_env0 (opt0\<lparr>opt_bufnr := 9\<rparr>) world_idle
     = (Inr (), world_idle\<lparr>ws_bufnr := 9\<rparr>) \<and>
   startCompletion collab0 doComplete_env0 (opt0\<lparr>source := Some ''nosuch''\<rparr>) world_idle
     = (Inr (), world_idle\<lparr>ws_bufnr := 1, document := Some 0, input := Some ''fo''\<rparr>)"
proof -
  let ?w = world_idle
  let ?e = "Error ''boom'' ''at fetch''"
  note fail = startCompletion_noop_and_failure [of ?w opt0 collab0 doComplete_env_fail]
  obtain w2 where p: "priv_doComplete collab0 doComplete_env_fail
        (opt0\<lparr>opt_filetype := filetype (docs ?w 0)\<rparr>)
        (?w\<lparr>ws_bufnr := opt_bufnr opt0, document := Some 0\<rparr>) = (Inl ?e, w2)"
    and a: "activted w2" and d: "document w2 = Some 0"
    and o: "out w2 = out ?w @ [SetCompleteopt ''noselect,menuone'', DocForceSync 0 True,
                               CompleteDoComplete 2 [''around'']]"
    by (simp add: start_defs doComplete_env_fail_def doComplete_env0_def world_idle_def ex_defs
        js_slice_def js_index_def lower_word_def js_endsWith_def)
  have h: "ws_documents ?w (opt_bufnr opt0) = Some 0" by (simp add: world_idle_def ex_defs)
  have g: "activted w2 \<longrightarrow> document w2 \<noteq> None" using d by simp
  have r: "snd (startCompletion collab0 doComplete_env_fail opt0 ?w) =
      emit (LoggerError (stack ?e))
        (emit (ShowMessage (''Error happens on complete: '' @ message ?e) ''error'')
           (snd (stop w2)))"
    and f: "fst (startCompletion collab0 doComplete_env_fail opt0 ?w) = Inr ()"
      "\<not> activted (snd (startCompletion collab0 doComplete_env_fail opt0 ?w))"
      "complete (snd (startCompletion collab0 doComplete_env_fail opt0 ?w)) = None"
    using fail h p g a unfolding Let_def by blast+
  have ev: "new_events ?w (snd (startCompletion collab0 doComplete_env_fail opt0 ?w)) =
      [SetCompleteopt ''noselect,menuone'', DocForceSync 0 True, CompleteDoComplete 2 [''around'']]
      @ stop_events w2 0
      @ [ShowMessage ''Error happens on complete: boom'' ''error'', LoggerError ''at fetch'']"
    unfolding r by (simp add: stop_nf [OF a d] o new_events_def)
  have n1: "ws_documents ?w (opt_bufnr (opt0\<lparr>opt_bufnr := 9\<rparr>)) = None"
    by (simp add: world_idle_def ex_defs)
  have n2: "ws_documents ?w (opt_bufnr (opt0\<lparr>source := Some ''nosuch''\<rparr>)) = Some 0 \<and>
      doComplete_sources collab0
        (opt0\<lparr>source := Some ''nosuch'', opt_filetype := filetype (docs ?w 0)\<rparr>)
        (?w\<lparr>document := Some 0\<rparr>) = Inr []"
    by (simp add: world_idle_def ex_defs doComplete_sources_def)
  have c1: "startCompletion collab0 doComplete_env0 (opt0\<lparr>opt_bufnr := 9\<rparr>) ?w
      = (Inr (), ?w\<lparr>ws_bufnr := 9\<rparr>)"
    using startCompletion_noop_and_failure [of ?w "opt0\<lparr>opt_bufnr := 9\<rparr>" collab0 doComplete_env0]
      n1 by simp
  have c2: "startCompletion collab0 doComplete_env0 (opt0\<lparr>source := Some ''nosuch''\<rparr>) ?w
      = (Inr (), ?w\<lparr>ws_bufnr := 1, document := Some 0, input := Some ''fo''\<rparr>)"
    using startCompletion_noop_and_failure [of ?w "opt0\<lparr>source := Some ''nosuch''\<rparr>" collab0
        doComplete_env0] n2
    by (simp add: opt0_def)
  show ?thesis
    unfolding Let_def using f ev c1 c2 stop_events_hide [of w2 0] by simp
qed

text \<open>
  The claim as stated fails on "no state changes": a trigger in a buffer without a document
  changes the buffer of the workspace, and a trigger for which no provider matches, arriving
  during an active session, overwrites the recorded input of that session.
\<close>

theorem startCompletion_writes_counterexample:
  "ws_documents world0 (opt_bufnr opt_other_buffer) = None \<and>
   fst (startCompletion collab0 doComplete_env0 opt_other_buffer world0) = Inr () \<and>
   ws_bufnr world0 = 1 \<and>
   ws_bufnr (snd (startCompletion collab0 doComplete_env0 opt_other_buffer world0)) = 9 \<and>
   snd (startCompletion collab0 doComplete_env0 opt_other_buffer world0) \<noteq> world0 \<and>
   doComplete_sources collab0 opt_no_provider world0 = Inr [] \<and>
   fst (startCompletion collab0 doComplete_env0 opt_no_provider world0) = Inr () \<and>
   input world0 = Some ''fo'' \<and>
   input (snd (startCompletion collab0 doComplete_env0 opt_no_provider world0)) = Some ''f'' \<and>
   snd (startCompletion collab0 doComplete_env0 opt_no_provider world0) \<noteq> world0"
proof -
  let ?r1 = "startCompletion collab0 doComplete_env0 opt_other_buffer world0"
  let ?r2 = "startCompletion collab0 doComplete_env0 opt_no_provider world0"
  have a: "ws_documents world0 (opt_bufnr opt_other_buffer) = None" "fst ?r1 = Inr ()"
    "ws_bufnr world0 = 1" "ws_bufnr (snd ?r1) = 9"
    by (simp_all add: opt_other_buffer_def start_defs ex_defs)
  have b: "doComplete_sources collab0 opt_no_provider world0 = Inr []" "fst ?r2 = Inr ()"
    "input world0 = Some ''fo''" "input (snd ?r2) = Some ''f''"
    by (simp_all add: opt_no_provider_def start_defs ex_defs)
  have "snd ?r1 \<noteq> world0" using a(3,4) by auto
  moreover have "snd ?r2 \<noteq> world0" using b(3,4) by auto
  ultimately show ?thesis using a b by simp
qed
subsection \<open>C8: a resolve that \<open>stop\<close> does not cancel\<close>

lemmas race_defs = world_raced_def pum_env_race_def pum_suspended_def pum_defs pum_show_def
  pum_buffer_def pum_floating_def createPreviewBuffer_def item_kind_def quiet_pum_def quiet_def
  isActivted_def Let_def

text \<open>
  C8. \<open>stop()\<close> is to cancel any resolve in flight. It cancels the token source that
  \<open>resolveTokenSource\<close> holds, and \<open>onPumRedraw\<close> clears that field when it ends, also when a
  later redraw has stored its own source there in the meantime. In \<open>world0\<close> the redraw for
  \<open>foo\<close> issues the token 2 and suspends in \<open>floating.show\<close>; the redraw for \<open>fox\<close> cancels the
  token 2, issues the token 3 and suspends in its resolve; the first redraw resumes and
  clears the field. The session is then active with the resolve of the token 3 in flight and
  no token source recorded, and \<open>stop()\<close> ends the session without cancelling it: the token 3
  does not report canceled and no cancellation is among the calls of \<open>stop()\<close>.
\<close>

theorem stop_after_redraw_race:
  "activted world_raced \<and> document world_raced = Some 0 \<and>
   next_ref world0 = 2 \<and> next_ref world_raced = 4 \<and>
   tokens world_raced 2 \<and> \<not> tokens world_raced 3 \<and>
   currIndex world_raced = 3 \<and> resolveTokenSource world_raced = None \<and>
   fst (stop world_raced) = Inr () \<and> \<not> activted (snd (stop world_raced)) \<and>
   \<not> tokens (snd (stop world_raced)) 3 \<and>
   new_events world_raced (snd (stop world_raced))
     = [FloatingClose, DocFireContentChanges 0, CompleteCancel 1, Coc_hide,
        SetCompleteopt ''menu,preview'']"
proof -
  have a: "activted world_raced" and d: "document world_raced = Some 0"
    by (simp_all add: race_defs ex_defs)
  have r: "next_ref world0 = 2" "next_ref world_raced = 4" "tokens world_raced 2"
    "\<not> tokens world_raced 3" "currIndex world_raced = 3"
    "resolveTokenSource world_raced = None" "floating world_raced"
    "complete world_raced = Some 1" "config world_raced = cfg0"
    "ws_completeOpt world_raced = ''menu,preview''"
    by (simp_all add: race_defs ex_defs)
  have s: "fst (stop world_raced) = Inr ()" "\<not> activted (snd (stop world_raced))"
    "\<not> tokens (snd (stop world_raced)) 3"
    using r by (simp_all add: stop_nf [OF a d])
  have e: "new_events world_raced (snd (stop world_raced))
           = [FloatingClose, DocFireContentChanges 0, CompleteCancel 1, Coc_hide,
              SetCompleteopt ''menu,preview'']"
    using r by (simp add: stop_nf [OF a d] new_events_def stop_events_def cfg0_def)
  show ?thesis using a d r s e by simp
qed

subsection \<open>C9: the pending-insert mark\<close>

lemma latestInsert_no_mark [simp]: "latestInsert (w\<lparr>lastInsert := None\<rparr>) = None"
  by (simp add: latestInsert_def)

lemma onInsertCharPre_cases:
  "onInsertCharPre D reload ch w =
     (if isActivted w \<and> \<not> env_pumevent w \<and> \<not> env_isVim w \<and> completeItems w \<noteq> []
         \<and> util_isWord D ch \<and> \<not> is_test w
      then (case answer reload of
              Inl e \<Rightarrow> (Inl e, yield (step reload) (emit Coc_reload w))
            | Inr u \<Rightarrow>
                (Inr (), (yield (step reload) (emit Coc_reload w))
                   \<lparr>lastInsert := Some \<lparr>character = ch,
                                         timestamp = now (yield (step reload) (emit Coc_reload w))\<rparr>,
                    insertCharTs := now (yield (step reload) (emit Coc_reload w))\<rparr>))
      else (Inr (), w\<lparr>lastInsert := Some \<lparr>character = ch, timestamp = now w\<rparr>,
                       insertCharTs := now w\<rparr>))"
  by (simp add: onInsertCharPre_def andThen_def await_def Let_def split: sum.splits)

text \<open>
  C9 (as amended). The text-change handlers treat the pending-insert mark as a genuine
  keystroke only while its age is at most 100ms. \<open>latestInsert\<close> returns the recorded mark
  if and only if one exists and the clock is at most 100ms past its timestamp, and null
  otherwise, and \<open>latestInsertChar\<close> is the character of that mark or the empty string. With
  a null \<open>latestInsert\<close>, \<open>onTextChangedI\<close>, and \<open>onTextChangedP\<close> once its document is
  patched, do what they do when no mark is recorded. The mark is what \<open>onInsertCharPre\<close>
  recorded: when it returns normally the mark holds the typed character and the time of the
  clock, and is the latest insert at that moment; when its \<open>coc#_reload\<close> call rejects, the
  handler throws that error and records nothing.
\<close>

theorem latestInsert_fresh:
  "(latestInsert w = Some m \<longleftrightarrow> lastInsert w = Some m \<and> now w - timestamp m \<le> 100) \<and>
   (latestInsert w = None \<longleftrightarrow> \<not> (\<exists>m. lastInsert w = Some m \<and> now w - timestamp m \<le> 100)) \<and>
   latestInsertChar w = (case latestInsert w of None \<Rightarrow> [] | Some m \<Rightarrow> character m) \<and>
   (latestInsert w = None \<longrightarrow>
      onTextChangedI D I bnr w = onTextChangedI D I bnr (w\<lparr>lastInsert := None\<rparr>) \<and>
      textChangedP_changed D P c d w = textChangedP_changed D P c d (w\<lparr>lastInsert := None\<rparr>)) \<and>
   (\<forall>w'. onInsertCharPre D reload ch w = (Inr (), w') \<longrightarrow>
          lastInsert w' = Some \<lparr>character = ch, timestamp = now w'\<rparr> \<and>
          insertCharTs w' = now w' \<and>
          latestInsert w' = lastInsert w' \<and> latestInsertChar w' = ch) \<and>
   (\<forall>e w'. onInsertCharPre D reload ch w = (Inl e, w') \<longrightarrow>
          answer reload = Inl e \<and> lastInsert w' = lastInsert (step reload (emit Coc_reload w)) \<and>
          insertCharTs w' = insertCharTs (step reload (emit Coc_reload w)))"
proof -
  have p1: "latestInsert w = Some m \<longleftrightarrow> lastInsert w = Some m \<and> now w - timestamp m \<le> 100"
    by (auto simp add: latestInsert_def split: option.splits)
  have p2: "latestInsert w = None \<longleftrightarrow>
            \<not> (\<exists>m. lastInsert w = Some m \<and> now w - timestamp m \<le> 100)"
    by (auto simp add: latestInsert_def split: option.splits)
  have p3: "latestInsertChar w = (case latestInsert w of None \<Rightarrow> [] | Some m \<Rightarrow> character m)"
    by (simp add: latestInsertChar_def)
  have p4: "latestInsert w = None \<longrightarrow>
      onTextChangedI D I bnr w = onTextChangedI D I bnr (w\<lparr>lastInsert := None\<rparr>) \<and>
      textChangedP_changed D P c d w = textChangedP_changed D P c d (w\<lparr>lastInsert := None\<rparr>)"
  proof (intro impI conjI)
    assume n: "latestInsert w = None"
    have "latestInsertChar w = latestInsertChar (w\<lparr>lastInsert := None\<rparr>)"
      using n by (simp add: latestInsertChar_def)
    then show "onTextChangedI D I bnr w = onTextChangedI D I bnr (w\<lparr>lastInsert := None\<rparr>)"
      unfolding onTextChangedI_def by simp
    show "textChangedP_changed D P c d w = textChangedP_changed D P c d (w\<lparr>lastInsert := None\<rparr>)"
      unfolding textChangedP_changed_def using n by simp
  qed
  have p6: "\<forall>w'. onInsertCharPre D reload ch w = (Inr (), w') \<longrightarrow>
          lastInsert w' = Some \<lparr>character = ch, timestamp = now w'\<rparr> \<and>
          insertCharTs w' = now w' \<and>
          latestInsert w' = lastInsert w' \<and> latestInsertChar w' = ch"
    unfolding onInsertCharPre_cases
    by (auto simp add: latestInsert_def latestInsertChar_def split: if_splits sum.splits)
  have p7: "\<forall>e w'. onInsertCharPre D reload ch w = (Inl e, w') \<longrightarrow>
          answer reload = Inl e \<and> lastInsert w' = lastInsert (step reload (emit Coc_reload w)) \<and>
          insertCharTs w' = insertCharTs (step reload (emit Coc_reload w))"
    unfolding onInsertCharPre_cases
    by (auto simp add: yield_def split: if_splits sum.splits)
  show ?thesis
    by (intro conjI) (rule p1, rule p2, rule p3, rule p4, rule p6, rule p7)
qed

text \<open>
  At time 1000 a mark of time 900 is fresh and a mark of time 899 is stale. A word character
  typed into the session, outside the popup events, is recorded after the reload, and is not
  when the reload rejects.
\<close>

theorem latestInsert_fresh_witness:
  "latestInsert (world0\<lparr>lastInsert := Some \<lparr>character = ''o'', timestamp = 900\<rparr>\<rparr>)
     = Some \<lparr>character = ''o'', timestamp = 900\<rparr> \<and>
   latestInsert (world0\<lparr>lastInsert := Some \<lparr>character = ''o'', timestamp = 899\<rparr>\<rparr>) = None \<and>
   latestInsert world_stale_mark = None \<and>
   onTextChangedI collab0 textChangedI_env0 1 world_stale_mark
     = onTextChangedI collab0 textChangedI_env0 1 world0 \<and>
   textChangedP_changed collab0 textChangedP_env0 1 0 world_stale_mark = (Inr (), world0) \<and>
   fst (onInsertCharPre collab0 (quiet ()) ''o'' (world0\<lparr>env_pumevent := False\<rparr>)) = Inr () \<and>
   lastInsert (snd (onInsertCharPre collab0 (quiet ()) ''o'' (world0\<lparr>env_pumevent := False\<rparr>)))
     = Some \<lparr>character = ''o'', timestamp = 1000\<rparr> \<and>
   fst (onInsertCharPre collab0 \<lparr>step = (\<lambda>w. w), answer = Inl (Error ''rejected'' ''rejected'')\<rparr>
          ''o'' (world0\<lparr>env_pumevent := False\<rparr>)) = Inl (Error ''rejected'' ''rejected'') \<and>
   lastInsert (snd (onInsertCharPre collab0
                      \<lparr>step = (\<lambda>w. w), answer = Inl (Error ''rejected'' ''rejected'')\<rparr> ''o''
                      (world0\<lparr>env_pumevent := False\<rparr>))) = None"
proof -
  let ?w = "world0\<lparr>env_pumevent := False\<rparr>"
  let ?rej = "\<lparr>step = (\<lambda>w. w), answer = Inl (Error ''rejected'' ''rejected'')\<rparr> :: unit await"
  let ?a = "onInsertCharPre collab0 (quiet ()) ''o'' ?w"
  let ?b = "onInsertCharPre collab0 ?rej ''o'' ?w"
  have c1: "latestInsert (world0\<lparr>lastInsert := Some \<lparr>character = ''o'', timestamp = 900\<rparr>\<rparr>)
            = Some \<lparr>character = ''o'', timestamp = 900\<rparr>"
    using latestInsert_fresh [where w = "world0\<lparr>lastInsert := Some \<lparr>character = ''o'', timestamp = 900\<rparr>\<rparr>"
        and m = "\<lparr>character = ''o'', timestamp = 900\<rparr>", THEN conjunct1]
    by (simp add: world0_def)
  have c2: "latestInsert (world0\<lparr>lastInsert := Some \<lparr>character = ''o'', timestamp = 899\<rparr>\<rparr>) = None"
    using latestInsert_fresh [where w = "world0\<lparr>lastInsert := Some \<lparr>character = ''o'', timestamp = 899\<rparr>\<rparr>",
        THEN conjunct2, THEN conjunct1]
    by (simp add: world0_def)
  have s: "latestInsert world_stale_mark = None"
    using latestInsert_fresh [where w = world_stale_mark, THEN conjunct2, THEN conjunct1]
    by (simp add: world_stale_mark_def world0_def)
  have z: "world_stale_mark\<lparr>lastInsert := None\<rparr> = world0"
    by (simp add: world_stale_mark_def world0_def)
  have c4: "onTextChangedI collab0 textChangedI_env0 1 world_stale_mark
              = onTextChangedI collab0 textChangedI_env0 1 world0 \<and>
            textChangedP_changed collab0 textChangedP_env0 1 0 world_stale_mark
              = textChangedP_changed collab0 textChangedP_env0 1 0 world0"
    using latestInsert_fresh [where w = world_stale_mark and D = collab0
        and I = textChangedI_env0 and bnr = 1 and P = textChangedP_env0 and c = 1 and d = 0,
        THEN conjunct2, THEN conjunct2, THEN conjunct2, THEN conjunct1] s
    by (simp add: z)
  have p: "textChangedP_changed collab0 textChangedP_env0 1 0 world0 = (Inr (), world0)"
    by (simp add: textChangedP_changed_def ex_defs)
  have a1: "fst ?a = Inr ()" "now (snd ?a) = 1000"
    by (simp_all add: onInsertCharPre_cases quiet_def isActivted_def lower_word_def ex_defs
        yield_def emit_def)
  have "?a = (Inr (), snd ?a)" using a1(1) by (simp add: prod_eq_iff)
  then have c6: "lastInsert (snd ?a) = Some \<lparr>character = ''o'', timestamp = 1000\<rparr>"
    using latestInsert_fresh [where w = ?w and D = collab0 and reload = "quiet ()"
        and ch = "''o''", THEN conjunct2, THEN conjunct2, THEN conjunct2, THEN conjunct2,
        THEN conjunct1] a1(2)
    by auto
  have b1: "fst ?b = Inl (Error ''rejected'' ''rejected'')"
    by (simp add: onInsertCharPre_cases isActivted_def lower_word_def ex_defs)
  then have "?b = (Inl (Error ''rejected'' ''rejected''), snd ?b)" by (simp add: prod_eq_iff)
  then have c7: "lastInsert (snd ?b) = None"
    using latestInsert_fresh [where w = ?w and D = collab0 and reload = ?rej
        and ch = "''o''", THEN conjunct2, THEN conjunct2, THEN conjunct2, THEN conjunct2,
        THEN conjunct2]
    by (auto simp add: emit_def world0_def)
  show ?thesis using c1 c2 s c4 p a1(1) c6 b1 c7 by simp
qed

text \<open>
  The claim as stated fails in \<open>onPumRedraw\<close>, which tests the field and not the getter: at
  time 1000 a mark of time 0 is not the latest insert, and yet the redraw for \<open>food\<close> takes
  it for a keystroke and returns with the selection where it was, whereas without the mark
  it selects the second candidate.
\<close>

theorem stale_mark_counterexample:
  "lastInsert world_stale_mark = Some \<lparr>character = ''o'', timestamp = 0\<rparr> \<and>
   now world_stale_mark = 1000 \<and> latestInsert world_stale_mark = None \<and>
   onPumRedraw quiet_pum (item0 ''food'') (0, 0, 0, 0) world_stale_mark
     = (Inr (), world_stale_mark) \<and>
   currIndex world_stale_mark = 0 \<and>
   currIndex (snd (onPumRedraw quiet_pum (item0 ''food'') (0, 0, 0, 0) world0)) = 2"
proof -
  have "onPumRedraw quiet_pum (item0 ''food'') (0, 0, 0, 0) world_stale_mark
        = (Inr (), world_stale_mark)"
    by (simp add: onPumRedraw_def cancelResolve_def world_stale_mark_def world0_def Let_def)
  moreover have "currIndex (snd (onPumRedraw quiet_pum (item0 ''food'') (0, 0, 0, 0) world0)) = 2"
    by (simp add: pum_defs ex_defs quiet_pum_def Let_def)
  ultimately show ?thesis
    by (simp add: world_stale_mark_def latestInsert_def world0_def)
qed


end
